theory Spec2Isabelle
  imports Complex_Main "HOL-Library.AList"
begin

section \<open>BoomBuddies client: the presentation engine (Game, TileMap, constants)\<close>

text \<open>
  A shallow embedding of \<^verbatim>\<open>constants.ts\<close>, \<^verbatim>\<open>TileMap.updateTile\<close> and the
  \<^verbatim>\<open>Game\<close> class.  A JavaScript \<^verbatim>\<open>number\<close> is a \<^typ>\<open>real\<close>, except where the
  code uses it as an array index or a tile code (\<^typ>\<open>int\<close>) or as a colour or
  direction code (\<^typ>\<open>nat\<close>).  A JavaScript
  \<^verbatim>\<open>Map\<close> is an association list in insertion order: \<^verbatim>\<open>set\<close> is
  \<^const>\<open>AList.update\<close> (replace in place or append), \<^verbatim>\<open>delete\<close> is
  \<^const>\<open>AList.delete\<close>, \<^verbatim>\<open>get\<close> is \<^const>\<open>map_of\<close>.  \<^verbatim>\<open>Date.now()\<close> and
  \<^verbatim>\<open>Math.random()\<close> are arguments of the operation that reads them.  Every mutation
  is explicit state passing on the record \<open>Game\<close>.  Drawing calls (the bodies of
  \<^verbatim>\<open>drawPlayer\<close>, \<^verbatim>\<open>drawBomb\<close>, \<^verbatim>\<open>drawExplosion\<close>, the scene-graph
  \<^verbatim>\<open>addChild\<close>/\<^verbatim>\<open>removeChild\<close>/\<^verbatim>\<open>destroy\<close>) and the two HUD text objects
  write only to PixiJS display objects that no modelled operation reads; of a display
  object the model keeps the position and the scale.
\<close>

subsection \<open>constants.ts\<close>

definition GRID_WIDTH :: int where "GRID_WIDTH = 19"
definition GRID_HEIGHT :: int where "GRID_HEIGHT = 15"
definition TILE_SIZE :: real where "TILE_SIZE = 40"
definition BOMB_TIMER :: real where "BOMB_TIMER = 3000"

definition PHASE_WAITING :: string where "PHASE_WAITING = ''lobby''"
definition PHASE_COUNTDOWN :: string where "PHASE_COUNTDOWN = ''countdown''"
definition PHASE_PLAYING :: string where "PHASE_PLAYING = ''playing''"
definition PHASE_ENDED :: string where "PHASE_ENDED = ''ended''"

definition DIRECTION_UP :: nat where "DIRECTION_UP = 1"
definition DIRECTION_DOWN :: nat where "DIRECTION_DOWN = 2"
definition DIRECTION_LEFT :: nat where "DIRECTION_LEFT = 3"
definition DIRECTION_RIGHT :: nat where "DIRECTION_RIGHT = 4"

text \<open>\<^verbatim>\<open>gridToPixel\<close>: the centre of a tile, as the pair \<open>(x, y)\<close>.\<close>

definition gridToPixel :: "real \<Rightarrow> real \<Rightarrow> real \<times> real" where
  "gridToPixel gridX gridY =
     (gridX * TILE_SIZE + TILE_SIZE / 2, gridY * TILE_SIZE + TILE_SIZE / 2)"

subsection \<open>types.ts: the snapshot\<close>

text \<open>Of each snapshot record, the fields that \<^verbatim>\<open>Game\<close> reads.\<close>

record BombermanPlayer =
  socketId :: string
  p_name :: string
  p_gridX :: real
  p_gridY :: real
  p_alive :: bool
  p_color :: nat
  p_stunnedUntil :: real

record BombData =
  b_id :: string
  b_gridX :: real
  b_gridY :: real
  b_timer :: real
  b_isMoving :: bool
  b_isFlying :: bool

record ExplosionData =
  e_id :: string
  e_gridX :: real
  e_gridY :: real
  e_timer :: real

text \<open>
  \<^verbatim>\<open>lobby.gameData?.tiles\<close>, \<^verbatim>\<open>?.bombs\<close> and \<^verbatim>\<open>?.explosions\<close> are tested for
  truthiness before use; an array, also an empty one, is truthy, so an absent list
  is \<open>None\<close>.
\<close>

record GameData =
  gd_tiles :: "int list option"
  gd_bombs :: "BombData list option"
  gd_explosions :: "ExplosionData list option"

record Lobby =
  l_state :: string
  l_players :: "BombermanPlayer list"
  l_gameData :: "GameData option"
  l_mySocketId :: "string option"

subsection \<open>Sprites and the state of Game\<close>

record PlayerSprite =
  ps_x :: real
  ps_y :: real
  ps_targetX :: real
  ps_targetY :: real
  ps_data :: BombermanPlayer
  ps_deathTime :: real
  ps_lastX :: real
  ps_lastY :: real
  ps_movePhase :: real

datatype axis = AxisX | AxisY

record BombSprite =
  bs_x :: real
  bs_y :: real
  bs_scaleX :: real
  bs_scaleY :: real
  bs_pulsePhase :: real
  bs_targetX :: real
  bs_targetY :: real
  bs_data :: BombData
  bs_bounceTime :: real
  bs_wrapBouncePhase :: real
  bs_wrapBounceDir :: "axis option"
  bs_prevTargetX :: real
  bs_prevTargetY :: real

record ExplosionSprite =
  es_x :: real
  es_y :: real
  es_createdAt :: real
  es_gridX :: real
  es_gridY :: real

text \<open>The outbound intents: a call of a callback appends to the log \<open>sent\<close>.\<close>

datatype intent = Move nat | PlaceBomb | Throw | StartGame

record Game =
  initialized :: bool
  callbacks :: bool
  sent :: "intent list"
  appContainer :: "(real \<times> real) option"
  tiles :: "int list"
  playerSprites :: "(string \<times> PlayerSprite) list"
  bombSprites :: "(string \<times> BombSprite) list"
  explosionSprites :: "(string \<times> ExplosionSprite) list"
  cameraX :: real
  cameraY :: real
  worldX :: real
  worldY :: real
  mySocketId :: "string option"
  currentLobby :: "Lobby option"
  keysHeld :: "string list"
  lastMoveTime :: real
  shakeIntensity :: real
  globalTime :: real

definition moveRepeatDelay :: real where "moveRepeatDelay = 120"
definition shakeDecay :: real where "shakeDecay = 0.85"

text \<open>The fields of a freshly constructed \<^verbatim>\<open>Game\<close>, after \<^verbatim>\<open>init\<close> on a container
  of the given client size and \<^verbatim>\<open>setCallbacks\<close>.\<close>

definition newGame :: "real \<times> real \<Rightarrow> Game" where
  "newGame sz =
     \<lparr> initialized = True, callbacks = True, sent = [], appContainer = Some sz,
       tiles = [], playerSprites = [], bombSprites = [], explosionSprites = [],
       cameraX = 0, cameraY = 0, worldX = 0, worldY = 0, mySocketId = None,
       currentLobby = None, keysHeld = [], lastMoveTime = 0, shakeIntensity = 0,
       globalTime = 0 \<rparr>"

text \<open>\<^verbatim>\<open>Map.has\<close>.\<close>

definition has :: "('k \<times> 'v) list \<Rightarrow> 'k \<Rightarrow> bool" where
  "has m k = (map_of m k \<noteq> None)"

text \<open>A string is truthy when it is neither \<^verbatim>\<open>null\<close> nor empty.\<close>

definition truthy :: "string option \<Rightarrow> bool" where
  "truthy s = (case s of None \<Rightarrow> False | Some t \<Rightarrow> t \<noteq> [])"

subsection \<open>TileMap\<close>

text \<open>\<^verbatim>\<open>TileMap.updateTile\<close>, on the stored array: the guard is on the flat index.\<close>

definition updateTile :: "int \<Rightarrow> int \<Rightarrow> int \<Rightarrow> int list \<Rightarrow> int list" where
  "updateTile gridX gridY tileType ts =
     (let index = gridY * GRID_WIDTH + gridX
      in if index \<ge> 0 \<and> index < int (length ts) then ts[nat index := tileType] else ts)"

subsection \<open>Players\<close>

text \<open>The sprite that \<^verbatim>\<open>addPlayer\<close> registers: the container is placed at \<open>pos\<close>.\<close>

definition newPlayerSprite :: "BombermanPlayer \<Rightarrow> PlayerSprite" where
  "newPlayerSprite d =
     (let pos = gridToPixel (p_gridX d) (p_gridY d)
      in \<lparr> ps_x = fst pos, ps_y = snd pos, ps_targetX = fst pos, ps_targetY = snd pos,
           ps_data = d, ps_deathTime = 0, ps_lastX = fst pos, ps_lastY = snd pos,
           ps_movePhase = 0 \<rparr>)"

definition addPlayer :: "BombermanPlayer \<Rightarrow> Game \<Rightarrow> Game" where
  "addPlayer d g =
     g\<lparr>playerSprites := AList.update (socketId d) (newPlayerSprite d) (playerSprites g)\<rparr>"

text \<open>The body of \<^verbatim>\<open>updatePlayer\<close> on the sprite it found; \<open>now\<close> is
  \<^verbatim>\<open>Date.now()\<close>, \<open>gt\<close> is \<^verbatim>\<open>this.globalTime\<close>.\<close>

definition updatePlayerSprite :: "real \<Rightarrow> real \<Rightarrow> BombermanPlayer \<Rightarrow> PlayerSprite \<Rightarrow> PlayerSprite" where
  "updatePlayerSprite now gt d sprite =
     (let wasDead = \<not> p_alive (ps_data sprite);
          justDied = (\<not> p_alive d \<and> \<not> wasDead);
          s1 = (if justDied then sprite\<lparr>ps_deathTime := now\<rparr> else sprite);
          pos = gridToPixel (p_gridX d) (p_gridY d);
          s2 = (if fst pos \<noteq> ps_targetX s1 \<or> snd pos \<noteq> ps_targetY s1
                then s1\<lparr>ps_lastX := ps_targetX s1, ps_lastY := ps_targetY s1, ps_movePhase := gt\<rparr>
                else s1)
      in s2\<lparr>ps_data := d, ps_targetX := fst pos, ps_targetY := snd pos\<rparr>)"

definition updatePlayer :: "real \<Rightarrow> BombermanPlayer \<Rightarrow> Game \<Rightarrow> Game" where
  "updatePlayer now d g =
     (case map_of (playerSprites g) (socketId d) of
        None \<Rightarrow> g
      | Some sprite \<Rightarrow>
          g\<lparr>playerSprites :=
              AList.update (socketId d) (updatePlayerSprite now (globalTime g) d sprite)
                (playerSprites g)\<rparr>)"

definition removePlayer :: "string \<Rightarrow> Game \<Rightarrow> Game" where
  "removePlayer i g =
     (case map_of (playerSprites g) i of
        None \<Rightarrow> g
      | Some sprite \<Rightarrow> g\<lparr>playerSprites := AList.delete i (playerSprites g)\<rparr>)"

text \<open>
  \<^verbatim>\<open>syncPlayers\<close>: the first \<^verbatim>\<open>forEach\<close> visits the entries of the map and deletes
  only the entry it is visiting, so it is a fold over the keys present at its start;
  the second is a fold over the snapshot list.
\<close>

definition syncPlayers :: "real \<Rightarrow> BombermanPlayer list \<Rightarrow> Game \<Rightarrow> Game" where
  "syncPlayers now players g =
     (let currentIds = set (map socketId players);
          g1 = fold (\<lambda>i h. if i \<notin> currentIds then removePlayer i h else h)
                 (map fst (playerSprites g)) g
      in fold (\<lambda>player h. if has (playerSprites h) (socketId player)
                            then updatePlayer now player h else addPlayer player h)
           players g1)"

subsection \<open>Bombs\<close>

text \<open>The sprite that \<^verbatim>\<open>addBomb\<close> registers; a new PixiJS display object has scale
  \<open>(1, 1)\<close>.\<close>

definition newBombSprite :: "BombData \<Rightarrow> BombSprite" where
  "newBombSprite d =
     (let pos = gridToPixel (b_gridX d) (b_gridY d)
      in \<lparr> bs_x = fst pos, bs_y = snd pos, bs_scaleX = 1, bs_scaleY = 1,
           bs_pulsePhase = 0, bs_targetX = fst pos, bs_targetY = snd pos, bs_data = d,
           bs_bounceTime = 0, bs_wrapBouncePhase = 0, bs_wrapBounceDir = None,
           bs_prevTargetX = fst pos, bs_prevTargetY = snd pos \<rparr>)"

definition addBomb :: "BombData \<Rightarrow> Game \<Rightarrow> Game" where
  "addBomb d g =
     g\<lparr>bombSprites := AList.update (b_id d) (newBombSprite d) (bombSprites g)\<rparr>"

text \<open>The body of \<^verbatim>\<open>updateBomb\<close> on the sprite it found.\<close>

definition updateBombSprite :: "BombData \<Rightarrow> BombSprite \<Rightarrow> BombSprite" where
  "updateBombSprite d sprite =
     (let s0 = sprite\<lparr>bs_data := d\<rparr>;
          urgency = 1 - b_timer d / BOMB_TIMER;
          s1 = s0\<lparr>bs_pulsePhase := urgency\<rparr>;
          pos = gridToPixel (b_gridX d) (b_gridY d);
          s2 = (if b_isFlying d \<and> bs_wrapBouncePhase s1 = 0 then
                  (let deltaX = \<bar>bs_targetX s1 - fst pos\<bar>;
                       deltaY = \<bar>bs_targetY s1 - snd pos\<bar>;
                       wrapThreshold = TILE_SIZE * 5
                   in if deltaX > wrapThreshold
                      then s1\<lparr>bs_wrapBouncePhase := 0.01, bs_wrapBounceDir := Some AxisX\<rparr>
                      else if deltaY > wrapThreshold
                      then s1\<lparr>bs_wrapBouncePhase := 0.01, bs_wrapBounceDir := Some AxisY\<rparr>
                      else s1)
                else s1);
          s3 = s2\<lparr>bs_prevTargetX := bs_targetX s2, bs_prevTargetY := bs_targetY s2\<rparr>
      in s3\<lparr>bs_targetX := fst pos, bs_targetY := snd pos\<rparr>)"

definition updateBomb :: "BombData \<Rightarrow> Game \<Rightarrow> Game" where
  "updateBomb d g =
     (case map_of (bombSprites g) (b_id d) of
        None \<Rightarrow> g
      | Some sprite \<Rightarrow>
          g\<lparr>bombSprites := AList.update (b_id d) (updateBombSprite d sprite) (bombSprites g)\<rparr>)"

definition removeBomb :: "string \<Rightarrow> Game \<Rightarrow> Game" where
  "removeBomb i g =
     (case map_of (bombSprites g) i of
        None \<Rightarrow> g
      | Some sprite \<Rightarrow> g\<lparr>bombSprites := AList.delete i (bombSprites g)\<rparr>)"

definition syncBombs :: "BombData list \<Rightarrow> Game \<Rightarrow> Game" where
  "syncBombs bombs g =
     (let currentIds = set (map b_id bombs);
          g1 = fold (\<lambda>i h. if i \<notin> currentIds then removeBomb i h else h)
                 (map fst (bombSprites g)) g
      in fold (\<lambda>bomb h. if has (bombSprites h) (b_id bomb)
                          then updateBomb bomb h else addBomb bomb h)
           bombs g1)"

subsection \<open>Explosions and the screen shake\<close>

definition triggerExplosionShake :: "real \<Rightarrow> real \<Rightarrow> Game \<Rightarrow> Game" where
  "triggerExplosionShake explosionX explosionY g =
     (if \<not> truthy (mySocketId g) then g
      else case map_of (playerSprites g) (the (mySocketId g)) of
        None \<Rightarrow> g
      | Some localSprite \<Rightarrow>
          (let dx = p_gridX (ps_data localSprite) - explosionX;
               dy = p_gridY (ps_data localSprite) - explosionY;
               distance = sqrt (dx * dx + dy * dy);
               maxDistance = 6
           in if distance < maxDistance
              then (let intensity = (1 - distance / maxDistance) * 12
                    in g\<lparr>shakeIntensity := max (shakeIntensity g) intensity\<rparr>)
              else g))"

text \<open>The sprite that \<^verbatim>\<open>addExplosion\<close> registers at the time \<open>now\<close>.\<close>

definition newExplosionSprite :: "real \<Rightarrow> ExplosionData \<Rightarrow> ExplosionSprite" where
  "newExplosionSprite now d =
     (let pos = gridToPixel (e_gridX d) (e_gridY d)
      in \<lparr> es_x = fst pos, es_y = snd pos, es_createdAt = now,
           es_gridX = e_gridX d, es_gridY = e_gridY d \<rparr>)"

definition addExplosion :: "real \<Rightarrow> ExplosionData \<Rightarrow> Game \<Rightarrow> Game" where
  "addExplosion now d g =
     (let g1 = g\<lparr>explosionSprites :=
                   AList.update (e_id d) (newExplosionSprite now d) (explosionSprites g)\<rparr>
      in triggerExplosionShake (e_gridX d) (e_gridY d) g1)"

definition removeExplosion :: "string \<Rightarrow> Game \<Rightarrow> Game" where
  "removeExplosion i g =
     (case map_of (explosionSprites g) i of
        None \<Rightarrow> g
      | Some sprite \<Rightarrow> g\<lparr>explosionSprites := AList.delete i (explosionSprites g)\<rparr>)"

definition syncExplosions :: "real \<Rightarrow> ExplosionData list \<Rightarrow> Game \<Rightarrow> Game" where
  "syncExplosions now explosions g =
     (let currentIds = set (map e_id explosions);
          g1 = fold (\<lambda>i h. if i \<notin> currentIds then removeExplosion i h else h)
                 (map fst (explosionSprites g)) g
      in fold (\<lambda>explosion h. if \<not> has (explosionSprites h) (e_id explosion)
                               then addExplosion now explosion h else h)
           explosions g1)"

subsection \<open>updateFromLobby\<close>

text \<open>
  \<^verbatim>\<open>updateFromLobby\<close>.  \<^verbatim>\<open>TileMap.setTiles\<close> stores the array; the last call,
  \<^verbatim>\<open>updateGameStateUI\<close>, writes the HUD text objects and the two countdown fields
  only, which are outside the modelled state.
\<close>

definition updateFromLobby :: "real \<Rightarrow> Lobby \<Rightarrow> Game \<Rightarrow> Game" where
  "updateFromLobby now lobby g =
     (if \<not> initialized g then g
      else
        (let g1 = g\<lparr>currentLobby := Some lobby, mySocketId := l_mySocketId lobby\<rparr>;
             g2 = (case Option.bind (l_gameData lobby) gd_tiles of
                     Some ts \<Rightarrow> g1\<lparr>tiles := ts\<rparr> | None \<Rightarrow> g1);
             g3 = syncPlayers now (l_players lobby) g2;
             g4 = (case Option.bind (l_gameData lobby) gd_bombs of
                     Some bs \<Rightarrow> syncBombs bs g3 | None \<Rightarrow> g3)
         in (case Option.bind (l_gameData lobby) gd_explosions of
               Some es \<Rightarrow> syncExplosions now es g4 | None \<Rightarrow> g4)))"

subsection \<open>The frame tick\<close>

definition lerp :: "real \<Rightarrow> real \<Rightarrow> real \<Rightarrow> real" where
  "lerp a b t = a + (b - a) * t"

text \<open>The remainder operator \<^verbatim>\<open>%\<close> of JavaScript on finite numbers, for a non-zero
  divisor: the quotient is truncated towards zero.\<close>

definition js_rem :: "real \<Rightarrow> real \<Rightarrow> real" where
  "js_rem a n = a - n * of_int (if a / n < 0 then \<lceil>a / n\<rceil> else \<lfloor>a / n\<rfloor>)"

text \<open>The per-player body of the first loop of \<^verbatim>\<open>update\<close>: the position is eased; the
  rest of the body computes arguments of \<^verbatim>\<open>drawPlayer\<close>.\<close>

definition animatePlayer :: "PlayerSprite \<Rightarrow> PlayerSprite" where
  "animatePlayer sprite =
     sprite\<lparr>ps_x := lerp (ps_x sprite) (ps_targetX sprite) 0.25,
            ps_y := lerp (ps_y sprite) (ps_targetY sprite) 0.25\<rparr>"

text \<open>The vertical offset of a flying bomb, from the bounce clock after its increment.\<close>

definition flyBounceOffset :: "real \<Rightarrow> real" where
  "flyBounceOffset bounceTime = sin (js_rem bounceTime 150 / 150 * pi) * (- 20)"

text \<open>
  The per-bomb body of the second loop of \<^verbatim>\<open>update\<close>.  In the wrap branch the
  bounce offset is only handed to \<^verbatim>\<open>drawBomb\<close>, so the branch keeps the increment
  of the bounce clock alone.
\<close>

definition animateBomb :: "BombSprite \<Rightarrow> BombSprite" where
  "animateBomb sprite =
     (if bs_wrapBouncePhase sprite > 0 \<and> bs_wrapBouncePhase sprite < 2 then
        (let s1 = sprite\<lparr>bs_wrapBouncePhase := bs_wrapBouncePhase sprite + 0.08\<rparr>;
             s2 = (if bs_wrapBouncePhase s1 < 1 then
                     (let t = bs_wrapBouncePhase s1;
                          squash = 1 - sin (t * pi) * 0.4
                      in if bs_wrapBounceDir s1 = Some AxisX
                         then s1\<lparr>bs_scaleX := squash, bs_scaleY := 1 + (1 - squash) * 0.3\<rparr>
                         else s1\<lparr>bs_scaleY := squash, bs_scaleX := 1 + (1 - squash) * 0.3\<rparr>)
                   else
                     (let s1a = (if bs_wrapBouncePhase s1 \<ge> 1 \<and> bs_wrapBouncePhase s1 < 1.08
                                 then s1\<lparr>bs_x := bs_targetX s1, bs_y := bs_targetY s1\<rparr>
                                 else s1);
                          t = bs_wrapBouncePhase s1a - 1;
                          stretch = 1 + sin (t * pi) * 0.3
                      in if bs_wrapBounceDir s1a = Some AxisX
                         then s1a\<lparr>bs_scaleX := stretch, bs_scaleY := 1 - (stretch - 1) * 0.3\<rparr>
                         else s1a\<lparr>bs_scaleY := stretch, bs_scaleX := 1 - (stretch - 1) * 0.3\<rparr>));
             s3 = (if bs_wrapBouncePhase s2 \<ge> 2
                   then s2\<lparr>bs_wrapBouncePhase := 0, bs_wrapBounceDir := None,
                           bs_scaleX := 1, bs_scaleY := 1\<rparr>
                   else s2)
         in if b_isFlying (bs_data s3)
            then s3\<lparr>bs_bounceTime := bs_bounceTime s3 + 16\<rparr> else s3)
      else
        (let lerpSpeed = (if b_isFlying (bs_data sprite) then 0.35
                          else if b_isMoving (bs_data sprite) then 0.3 else 0.25);
             s1 = sprite\<lparr>bs_x := lerp (bs_x sprite) (bs_targetX sprite) lerpSpeed\<rparr>;
             s2 = (if b_isFlying (bs_data s1)
                   then s1\<lparr>bs_bounceTime := bs_bounceTime s1 + 16\<rparr>
                   else s1\<lparr>bs_bounceTime := 0\<rparr>);
             bounceOffset = (if b_isFlying (bs_data s1)
                             then flyBounceOffset (bs_bounceTime s2) else 0)
         in s2\<lparr>bs_y := lerp (bs_y s2) (bs_targetY s2 + bounceOffset) lerpSpeed\<rparr>))"

text \<open>\<^verbatim>\<open>Set.add\<close> and \<^verbatim>\<open>Set.delete\<close> on the held keys, a list without repetition.\<close>

definition set_add :: "string \<Rightarrow> string list \<Rightarrow> string list" where
  "set_add k ks = (if k \<in> set ks then ks else ks @ [k])"

definition set_delete :: "string \<Rightarrow> string list \<Rightarrow> string list" where
  "set_delete k ks = removeAll k ks"

text \<open>\<^verbatim>\<open>this.currentLobby?.state !== GAME_PHASE.PLAYING\<close> and its like.\<close>

definition lobbyStateIs :: "string \<Rightarrow> Game \<Rightarrow> bool" where
  "lobbyStateIs phase g =
     (case currentLobby g of None \<Rightarrow> False | Some l \<Rightarrow> l_state l = phase)"

text \<open>\<^verbatim>\<open>callbacks.onMove(direction); lastMoveTime = now\<close>, when the callbacks are set.\<close>

definition dispatchMove :: "real \<Rightarrow> nat option \<Rightarrow> Game \<Rightarrow> Game" where
  "dispatchMove now direction g =
     (case direction of
        None \<Rightarrow> g
      | Some d \<Rightarrow> if callbacks g then g\<lparr>sent := sent g @ [Move d], lastMoveTime := now\<rparr> else g)"

definition processHeldKeys :: "real \<Rightarrow> Game \<Rightarrow> Game" where
  "processHeldKeys now g =
     (if \<not> lobbyStateIs PHASE_PLAYING g then g
      else if now - lastMoveTime g < moveRepeatDelay then g
      else
        (let held = (\<lambda>k. k \<in> set (keysHeld g));
             direction =
               (if held ''ArrowUp'' \<or> held ''KeyW'' then Some DIRECTION_UP
                else if held ''ArrowDown'' \<or> held ''KeyS'' then Some DIRECTION_DOWN
                else if held ''ArrowLeft'' \<or> held ''KeyA'' then Some DIRECTION_LEFT
                else if held ''ArrowRight'' \<or> held ''KeyD'' then Some DIRECTION_RIGHT
                else None)
         in dispatchMove now direction g))"

text \<open>A keyboard event: its code and its shift flag.  \<open>now\<close> is the \<^verbatim>\<open>Date.now()\<close>
  that \<^verbatim>\<open>handleKeyDown\<close> reads.\<close>

record KeyboardEvent =
  code :: string
  shiftKey :: bool

definition handleKeyDown :: "real \<Rightarrow> KeyboardEvent \<Rightarrow> Game \<Rightarrow> Game" where
  "handleKeyDown now event g =
     (let g1 = g\<lparr>keysHeld := set_add (code event) (keysHeld g)\<rparr>
      in if \<not> lobbyStateIs PHASE_PLAYING g1 then
           (if code event = ''Enter'' \<and> shiftKey event \<and> lobbyStateIs PHASE_WAITING g1
                 \<and> callbacks g1
            then g1\<lparr>sent := sent g1 @ [StartGame]\<rparr> else g1)
         else
           (let g2 = (if code event = ''Space'' \<and> callbacks g1
                      then g1\<lparr>sent := sent g1 @ [PlaceBomb]\<rparr> else g1);
                g3 = (if code event = ''KeyE'' \<and> callbacks g2
                      then g2\<lparr>sent := sent g2 @ [Throw]\<rparr> else g2)
            in if length (keysHeld g3) = 1 then
                 (let c = code event;
                      direction =
                        (if c = ''ArrowUp'' \<or> c = ''KeyW'' then Some DIRECTION_UP
                         else if c = ''ArrowDown'' \<or> c = ''KeyS'' then Some DIRECTION_DOWN
                         else if c = ''ArrowLeft'' \<or> c = ''KeyA'' then Some DIRECTION_LEFT
                         else if c = ''ArrowRight'' \<or> c = ''KeyD'' then Some DIRECTION_RIGHT
                         else None)
                  in dispatchMove now direction g3)
               else g3))"

definition handleKeyUp :: "KeyboardEvent \<Rightarrow> Game \<Rightarrow> Game" where
  "handleKeyUp event g = g\<lparr>keysHeld := set_delete (code event) (keysHeld g)\<rparr>"

text \<open>\<^verbatim>\<open>a || b\<close> on numbers: \<open>0\<close> is falsy.\<close>

definition or_else :: "real option \<Rightarrow> real \<Rightarrow> real" where
  "or_else a b = (case a of None \<Rightarrow> b | Some v \<Rightarrow> if v = 0 then b else v)"

text \<open>
  The local constants of \<^verbatim>\<open>updateCamera\<close>; \<open>inner\<close> is
  \<^verbatim>\<open>(window.innerWidth, window.innerHeight)\<close>, read when the container is missing
  or its client size is \<open>0\<close>.
\<close>

definition containerWidth :: "real \<times> real \<Rightarrow> Game \<Rightarrow> real" where
  "containerWidth inner g = or_else (map_option fst (appContainer g)) (fst inner)"

definition containerHeight :: "real \<times> real \<Rightarrow> Game \<Rightarrow> real" where
  "containerHeight inner g = or_else (map_option snd (appContainer g)) (snd inner)"

definition worldWidth :: real where
  "worldWidth = real_of_int GRID_WIDTH * TILE_SIZE"

definition worldHeight :: real where
  "worldHeight = real_of_int GRID_HEIGHT * TILE_SIZE"

text \<open>\<^verbatim>\<open>this.mySocketId ? this.playerSprites.get(this.mySocketId) : null\<close>.\<close>

definition localSprite :: "Game \<Rightarrow> PlayerSprite option" where
  "localSprite g =
     (if truthy (mySocketId g) then map_of (playerSprites g) (the (mySocketId g)) else None)"

text \<open>The target of \<^verbatim>\<open>updateCamera\<close>, as the pair \<open>(targetX, targetY)\<close>.\<close>

definition cameraTarget :: "real \<times> real \<Rightarrow> Game \<Rightarrow> real \<times> real" where
  "cameraTarget inner g =
     (let targetX =
            (if worldWidth \<le> containerWidth inner g
             then (containerWidth inner g - worldWidth) / 2
             else case localSprite g of
                    Some sp \<Rightarrow>
                      (let t = - ps_x sp + containerWidth inner g / 2;
                           maxX = 0;
                           minX = - worldWidth + containerWidth inner g
                       in min maxX (max minX t))
                  | None \<Rightarrow> 0);
          targetY =
            (if worldHeight \<le> containerHeight inner g then 0
             else case localSprite g of
                    Some sp \<Rightarrow>
                      (let t = - ps_y sp + containerHeight inner g / 2;
                           maxY = 0;
                           minY = - worldHeight + containerHeight inner g
                       in min maxY (max minY t))
                  | None \<Rightarrow> 0)
      in (targetX, targetY))"

definition updateCamera :: "real \<times> real \<Rightarrow> Game \<Rightarrow> Game" where
  "updateCamera inner g =
     (let target = cameraTarget inner g;
          g1 = g\<lparr>cameraX := lerp (cameraX g) (fst target) 0.1,
                 cameraY := lerp (cameraY g) (snd target) 0.1\<rparr>
      in g1\<lparr>worldX := cameraX g1, worldY := cameraY g1\<rparr>)"

text \<open>What one call of \<^verbatim>\<open>update\<close> reads from its environment: the clock, the window
  size and the two random numbers of the shake.\<close>

record FrameEnv =
  f_now :: real
  f_inner :: "real \<times> real"
  f_random1 :: real
  f_random2 :: real

definition applyShake :: "real \<Rightarrow> real \<Rightarrow> Game \<Rightarrow> Game" where
  "applyShake r1 r2 g =
     (if shakeIntensity g > 0.5 then
        (let g1 = g\<lparr>worldX := worldX g + (r1 - 0.5) * shakeIntensity g\<rparr>;
             g2 = g1\<lparr>worldY := worldY g1 + (r2 - 0.5) * shakeIntensity g1\<rparr>;
             g3 = g2\<lparr>shakeIntensity := shakeIntensity g2 * shakeDecay\<rparr>
         in if shakeIntensity g3 < 0.5 then g3\<lparr>shakeIntensity := 0\<rparr> else g3)
      else g)"

text \<open>\<^verbatim>\<open>update\<close>, the ticker callback; \<^verbatim>\<open>animateCountdown\<close> writes the HUD only.\<close>

definition update :: "FrameEnv \<Rightarrow> Game \<Rightarrow> Game" where
  "update env g =
     (let now = f_now env;
          g1 = g\<lparr>globalTime := now\<rparr>;
          g2 = processHeldKeys now g1;
          g3 = g2\<lparr>playerSprites := map (\<lambda>(i, sprite). (i, animatePlayer sprite)) (playerSprites g2)\<rparr>;
          g4 = g3\<lparr>bombSprites := map (\<lambda>(i, sprite). (i, animateBomb sprite)) (bombSprites g3)\<rparr>;
          g5 = updateCamera (f_inner env) g4
      in applyShake (f_random1 env) (f_random2 env) g5)"

subsection \<open>The host: snapshots, frames and key events in any order\<close>

text \<open>The callbacks run one at a time on a single event loop, so a run of the game is
  a list of events applied in order.\<close>

datatype event =
    Snapshot real Lobby
  | Frame FrameEnv
  | KeyDown real KeyboardEvent
  | KeyUp KeyboardEvent

fun step :: "event \<Rightarrow> Game \<Rightarrow> Game" where
  "step (Snapshot now lobby) g = updateFromLobby now lobby g"
| "step (Frame env) g = update env g"
| "step (KeyDown now event) g = handleKeyDown now event g"
| "step (KeyUp event) g = handleKeyUp event g"

definition run :: "event list \<Rightarrow> Game \<Rightarrow> Game" where
  "run evs g = fold step evs g"

subsection \<open>The idle state of the wrap bounce\<close>

text \<open>A bomb sprite whose wrap-bounce machine is idle: phase \<open>0\<close>, no axis tag, scale
  \<open>(1, 1)\<close>.\<close>

definition wrapIdle :: "BombSprite \<Rightarrow> bool" where
  "wrapIdle s = (bs_wrapBouncePhase s = 0 \<and> bs_wrapBounceDir s = None
                 \<and> bs_scaleX s = 1 \<and> bs_scaleY s = 1)"

subsection \<open>The intensity of one shake impulse\<close>

text \<open>The intensity that \<^verbatim>\<open>triggerExplosionShake\<close> computes at grid distance \<open>d\<close>,
  taken as \<open>0\<close> from the cutoff of 6 cells on, where the code computes none.\<close>

definition impulseIntensity :: "real \<Rightarrow> real" where
  "impulseIntensity d = (if d < 6 then (1 - d / 6) * 12 else 0)"

subsection \<open>Snapshots that report a player dead\<close>

text \<open>A snapshot observes the player \<open>i\<close> dead when its player list has an entry for
  \<open>i\<close> and every entry for \<open>i\<close> has \<^verbatim>\<open>alive = false\<close>; an event carries the
  observation when it is such a snapshot or not a snapshot at all.\<close>

definition observesDead :: "string \<Rightarrow> Lobby \<Rightarrow> bool" where
  "observesDead i lobby =
     (i \<in> socketId ` set (l_players lobby)
      \<and> (\<forall>p \<in> set (l_players lobby). socketId p = i \<longrightarrow> \<not> p_alive p))"

fun carriesDead :: "string \<Rightarrow> event \<Rightarrow> bool" where
  "carriesDead i (Snapshot now lobby) = observesDead i lobby"
| "carriesDead i (Frame env) = True"
| "carriesDead i (KeyDown now ev) = True"
| "carriesDead i (KeyUp ev) = True"

text \<open>The sprite of \<open>i\<close> exists, holds dead data and the death-start time \<open>t0\<close>.\<close>

definition reportedDead :: "string \<Rightarrow> real \<Rightarrow> Game \<Rightarrow> bool" where
  "reportedDead i t0 g =
     (case map_of (playerSprites g) i of
        None \<Rightarrow> False
      | Some sp \<Rightarrow> ps_deathTime sp = t0 \<and> \<not> p_alive (ps_data sp))"

subsection \<open>Example snapshots and states\<close>

definition alice :: BombermanPlayer where
  "alice = \<lparr> socketId = ''a1'', p_name = ''Alice'', p_gridX = 1, p_gridY = 1,
             p_alive = True, p_color = 0xff4444, p_stunnedUntil = 0 \<rparr>"

definition bob :: BombermanPlayer where
  "bob = \<lparr> socketId = ''b2'', p_name = ''Bob'', p_gridX = 17, p_gridY = 13,
           p_alive = True, p_color = 0x44ff44, p_stunnedUntil = 0 \<rparr>"

definition bombA :: BombData where
  "bombA = \<lparr> b_id = ''bomb-1'', b_gridX = 0, b_gridY = 3, b_timer = 2500,
             b_isMoving = False, b_isFlying = True \<rparr>"

definition blastA :: ExplosionData where
  "blastA = \<lparr> e_id = ''ex-1'', e_gridX = 3, e_gridY = 1, e_timer = 500 \<rparr>"

definition blastB :: ExplosionData where
  "blastB = \<lparr> e_id = ''ex-2'', e_gridX = 5, e_gridY = 5, e_timer = 500 \<rparr>"

text \<open>A running game that owns sprites for Alice, Bob, one bomb and one explosion.\<close>

definition gameA :: Game where
  "gameA = (newGame (800, 600))
     \<lparr> playerSprites := [(''a1'', newPlayerSprite alice), (''b2'', newPlayerSprite bob)],
       bombSprites := [(''bomb-1'', newBombSprite bombA)],
       explosionSprites := [(''ex-1'', newExplosionSprite 1000 blastA)],
       mySocketId := Some ''a1'' \<rparr>"

text \<open>The next snapshot: Bob and the bomb are gone, a second explosion has appeared.\<close>

definition gameDataB :: GameData where
  "gameDataB = \<lparr> gd_tiles = None, gd_bombs = Some [], gd_explosions = Some [blastB] \<rparr>"

definition lobbyB :: Lobby where
  "lobbyB = \<lparr> l_state = PHASE_PLAYING, l_players = [alice],
              l_gameData = Some gameDataB, l_mySocketId = Some ''a1'' \<rparr>"

text \<open>A snapshot in which Carol and a second bomb appear for the first time.\<close>

definition carol :: BombermanPlayer where
  "carol = \<lparr> socketId = ''c3'', p_name = ''Carol'', p_gridX = 5, p_gridY = 2,
             p_alive = True, p_color = 0x4444ff, p_stunnedUntil = 0 \<rparr>"

definition bombB :: BombData where
  "bombB = \<lparr> b_id = ''bomb-2'', b_gridX = 4, b_gridY = 7, b_timer = 3000,
             b_isMoving = False, b_isFlying = False \<rparr>"

definition gameDataC :: GameData where
  "gameDataC = \<lparr> gd_tiles = None, gd_bombs = Some [bombA, bombB], gd_explosions = Some [] \<rparr>"

definition lobbyC :: Lobby where
  "lobbyC = \<lparr> l_state = PHASE_PLAYING, l_players = [alice, carol],
              l_gameData = Some gameDataC, l_mySocketId = Some ''a1'' \<rparr>"

text \<open>A snapshot that repeats every known id with changed fields: Alice has moved one
  cell, the bomb has moved one cell, the explosion \<open>ex-1\<close> reports another cell.\<close>

definition aliceMoved :: BombermanPlayer where
  "aliceMoved = alice\<lparr>p_gridX := 2\<rparr>"

definition bombMoved :: BombData where
  "bombMoved = bombA\<lparr>b_gridX := 1, b_timer := 2400\<rparr>"

definition blastMoved :: ExplosionData where
  "blastMoved = blastA\<lparr>e_gridX := 4, e_timer := 300\<rparr>"

definition gameDataD :: GameData where
  "gameDataD = \<lparr> gd_tiles = None, gd_bombs = Some [bombMoved],
                 gd_explosions = Some [blastMoved] \<rparr>"

definition lobbyD :: Lobby where
  "lobbyD = \<lparr> l_state = PHASE_PLAYING, l_players = [aliceMoved, bob],
              l_gameData = Some gameDataD, l_mySocketId = Some ''a1'' \<rparr>"

text \<open>Alice is reported dead in three snapshots, with a frame and a key press between.\<close>

definition aliceDead :: BombermanPlayer where
  "aliceDead = alice\<lparr>p_alive := False\<rparr>"

definition lobbyE :: Lobby where
  "lobbyE = \<lparr> l_state = PHASE_PLAYING, l_players = [aliceDead, bob],
              l_gameData = None, l_mySocketId = Some ''a1'' \<rparr>"

definition lobbyF :: Lobby where
  "lobbyF = \<lparr> l_state = PHASE_PLAYING, l_players = [bob, aliceDead\<lparr>p_gridX := 2\<rparr>],
              l_gameData = None, l_mySocketId = Some ''a1'' \<rparr>"

definition frameE :: FrameEnv where
  "frameE = \<lparr> f_now = 2016, f_inner = (1024, 768), f_random1 = 0.25, f_random2 = 0.75 \<rparr>"

definition eventsE :: "event list" where
  "eventsE = [Frame frameE, Snapshot 2100 lobbyF,
              KeyDown 2150 \<lparr> code = ''ArrowUp'', shiftKey = False \<rparr>,
              Snapshot 2200 lobbyE]"

text \<open>The same game in a viewport smaller than the world, with Bob as the local
  player, and a game whose container is missing.\<close>

definition gameSmall :: Game where
  "gameSmall = gameA\<lparr>appContainer := Some (400, 300), mySocketId := Some ''b2''\<rparr>"

definition gameNoLocal :: Game where
  "gameNoLocal = gameA\<lparr>appContainer := None, mySocketId := None\<rparr>"

text \<open>The bomb of \<open>gameA\<close> reported at the far edge of its row.\<close>

definition bombFar :: BombData where
  "bombFar = bombA\<lparr>b_gridX := 18\<rparr>"

text \<open>A \<open>19 \<times> 15\<close> grid of empty tiles.\<close>

definition emptyTiles :: "int list" where
  "emptyTiles = replicate 285 0"

text \<open>A playing game with no key held, and the key-down events of an arrow key that is
  pressed at time \<open>1000\<close> and held: the keyboard repeats the event at \<open>1500\<close>,
  \<open>1533\<close> and \<open>1566\<close>.\<close>

definition gamePlaying :: Game where
  "gamePlaying = gameA\<lparr>currentLobby := Some lobbyB\<rparr>"

definition arrowUp :: KeyboardEvent where
  "arrowUp = \<lparr> code = ''ArrowUp'', shiftKey = False \<rparr>"

definition heldArrowUp :: "event list" where
  "heldArrowUp = [KeyDown 1000 arrowUp, KeyDown 1500 arrowUp, KeyDown 1533 arrowUp,
                  KeyDown 1566 arrowUp]"

text \<open>A game in the small viewport whose local player stands in the middle of the grid.\<close>

definition dave :: BombermanPlayer where
  "dave = \<lparr> socketId = ''d4'', p_name = ''Dave'', p_gridX = 7, p_gridY = 7,
            p_alive = True, p_color = 0xffff44, p_stunnedUntil = 0 \<rparr>"

definition gameFollow :: Game where
  "gameFollow = gameSmall\<lparr>playerSprites := [(''d4'', newPlayerSprite dave)],
                           mySocketId := Some ''d4''\<rparr>"

text \<open>The bomb sprite of \<open>gameA\<close> after the update that reports it at the far edge,
  and the same sprite late in its wrap bounce.\<close>

definition bombTriggered :: BombSprite where
  "bombTriggered = updateBombSprite bombFar (newBombSprite bombA)"

definition bombLate :: BombSprite where
  "bombLate = bombTriggered\<lparr>bs_wrapBouncePhase := 1.93, bs_scaleX := 1.0655, bs_scaleY := 0.98\<rparr>"

section \<open>Properties\<close>

subsection \<open>Keys of the sprite maps\<close>

lemma has_iff: "has m k \<longleftrightarrow> k \<in> fst ` set m"
  by (simp add: has_def map_of_eq_None_iff)

lemma keys_delete: "fst ` set (AList.delete k al) = fst ` set al - {k}"
  by (induction al) auto

lemma keys_removePlayer:
  "fst ` set (playerSprites (removePlayer i g)) = fst ` set (playerSprites g) - {i}"
  by (auto simp: removePlayer_def keys_delete map_of_eq_None_iff split: option.splits)

lemma keys_removeBomb:
  "fst ` set (bombSprites (removeBomb i g)) = fst ` set (bombSprites g) - {i}"
  by (auto simp: removeBomb_def keys_delete map_of_eq_None_iff split: option.splits)

lemma keys_removeExplosion:
  "fst ` set (explosionSprites (removeExplosion i g)) = fst ` set (explosionSprites g) - {i}"
  by (auto simp: removeExplosion_def keys_delete map_of_eq_None_iff split: option.splits)

lemma keys_stale_players:
  "fst ` set (playerSprites (fold (\<lambda>i h. if i \<notin> A then removePlayer i h else h) ks g))
     = fst ` set (playerSprites g) - (set ks - A)"
  by (induction ks arbitrary: g) (auto simp: keys_removePlayer)

lemma keys_stale_bombs:
  "fst ` set (bombSprites (fold (\<lambda>i h. if i \<notin> A then removeBomb i h else h) ks g))
     = fst ` set (bombSprites g) - (set ks - A)"
  by (induction ks arbitrary: g) (auto simp: keys_removeBomb)

lemma keys_stale_explosions:
  "fst ` set (explosionSprites (fold (\<lambda>i h. if i \<notin> A then removeExplosion i h else h) ks g))
     = fst ` set (explosionSprites g) - (set ks - A)"
  by (induction ks arbitrary: g) (auto simp: keys_removeExplosion)

lemma keys_addPlayer:
  "fst ` set (playerSprites (addPlayer d g)) = insert (socketId d) (fst ` set (playerSprites g))"
  by (simp add: addPlayer_def AList.dom_update)

lemma keys_updatePlayer:
  "fst ` set (playerSprites (updatePlayer now d g)) = fst ` set (playerSprites g)"
  by (auto simp: updatePlayer_def AList.dom_update split: option.splits
      dest!: map_of_SomeD intro: rev_image_eqI)

lemma keys_addBomb:
  "fst ` set (bombSprites (addBomb d g)) = insert (b_id d) (fst ` set (bombSprites g))"
  by (simp add: addBomb_def AList.dom_update)

lemma keys_updateBomb:
  "fst ` set (bombSprites (updateBomb d g)) = fst ` set (bombSprites g)"
  by (auto simp: updateBomb_def AList.dom_update split: option.splits
      dest!: map_of_SomeD intro: rev_image_eqI)

lemma explosionSprites_shake:
  "explosionSprites (triggerExplosionShake x y g) = explosionSprites g"
  by (simp add: triggerExplosionShake_def Let_def split: option.splits)

lemma keys_addExplosion:
  "fst ` set (explosionSprites (addExplosion now d g))
     = insert (e_id d) (fst ` set (explosionSprites g))"
  by (simp add: addExplosion_def Let_def explosionSprites_shake AList.dom_update)

lemma keys_upsert_players:
  "fst ` set (playerSprites (fold (\<lambda>player h. if has (playerSprites h) (socketId player)
                            then updatePlayer now player h else addPlayer player h) ps g))
     = fst ` set (playerSprites g) \<union> socketId ` set ps"
proof (induction ps arbitrary: g)
  case Nil
  show ?case by simp
next
  case (Cons p ps)
  show ?case
  proof (cases "has (playerSprites g) (socketId p)")
    case True
    then have "socketId p \<in> fst ` set (playerSprites g)" by (simp add: has_iff)
    with True show ?thesis by (auto simp: Cons.IH keys_updatePlayer)
  next
    case False
    then show ?thesis by (auto simp: Cons.IH keys_addPlayer)
  qed
qed

lemma keys_upsert_bombs:
  "fst ` set (bombSprites (fold (\<lambda>bomb h. if has (bombSprites h) (b_id bomb)
                          then updateBomb bomb h else addBomb bomb h) bs g))
     = fst ` set (bombSprites g) \<union> b_id ` set bs"
proof (induction bs arbitrary: g)
  case Nil
  show ?case by simp
next
  case (Cons b bs)
  show ?case
  proof (cases "has (bombSprites g) (b_id b)")
    case True
    then have "b_id b \<in> fst ` set (bombSprites g)" by (simp add: has_iff)
    with True show ?thesis by (auto simp: Cons.IH keys_updateBomb)
  next
    case False
    then show ?thesis by (auto simp: Cons.IH keys_addBomb)
  qed
qed

lemma keys_insert_explosions:
  "fst ` set (explosionSprites (fold (\<lambda>explosion h. if \<not> has (explosionSprites h) (e_id explosion)
                               then addExplosion now explosion h else h) es g))
     = fst ` set (explosionSprites g) \<union> e_id ` set es"
proof (induction es arbitrary: g)
  case Nil
  show ?case by simp
next
  case (Cons e es)
  show ?case
  proof (cases "has (explosionSprites g) (e_id e)")
    case True
    then have "e_id e \<in> fst ` set (explosionSprites g)" by (simp add: has_iff)
    with True show ?thesis by (auto simp: Cons.IH)
  next
    case False
    then show ?thesis by (auto simp: Cons.IH keys_addExplosion)
  qed
qed

lemma keys_syncPlayers: "fst ` set (playerSprites (syncPlayers now ps g)) = socketId ` set ps"
  unfolding syncPlayers_def Let_def keys_upsert_players keys_stale_players by auto

lemma keys_syncBombs: "fst ` set (bombSprites (syncBombs bs g)) = b_id ` set bs"
  unfolding syncBombs_def Let_def keys_upsert_bombs keys_stale_bombs by auto

lemma keys_syncExplosions:
  "fst ` set (explosionSprites (syncExplosions now es g)) = e_id ` set es"
  unfolding syncExplosions_def Let_def keys_insert_explosions keys_stale_explosions by auto

subsection \<open>What each reconciliation leaves alone\<close>

lemma playerSprites_removeBomb: "playerSprites (removeBomb i g) = playerSprites g"
  by (simp add: removeBomb_def split: option.splits)

lemma playerSprites_updateBomb: "playerSprites (updateBomb d g) = playerSprites g"
  by (simp add: updateBomb_def split: option.splits)

lemma playerSprites_addBomb: "playerSprites (addBomb d g) = playerSprites g"
  by (simp add: addBomb_def)

lemma playerSprites_syncBombs: "playerSprites (syncBombs bs g) = playerSprites g"
proof -
  have a: "playerSprites (fold (\<lambda>i h. if i \<notin> A then removeBomb i h else h) ks h0)
             = playerSprites h0" for A ks h0
    by (induction ks arbitrary: h0) (simp_all add: playerSprites_removeBomb)
  have b: "playerSprites (fold (\<lambda>bomb h. if has (bombSprites h) (b_id bomb)
                          then updateBomb bomb h else addBomb bomb h) xs h0)
             = playerSprites h0" for xs h0
    by (induction xs arbitrary: h0) (simp_all add: playerSprites_updateBomb playerSprites_addBomb)
  show ?thesis by (simp add: syncBombs_def Let_def a b)
qed

lemma others_removeExplosion:
  "playerSprites (removeExplosion i g) = playerSprites g"
  "bombSprites (removeExplosion i g) = bombSprites g"
  by (simp_all add: removeExplosion_def split: option.splits)

lemma others_shake:
  "playerSprites (triggerExplosionShake x y g) = playerSprites g"
  "bombSprites (triggerExplosionShake x y g) = bombSprites g"
  by (simp_all add: triggerExplosionShake_def Let_def split: option.splits)

lemma others_addExplosion:
  "playerSprites (addExplosion now d g) = playerSprites g"
  "bombSprites (addExplosion now d g) = bombSprites g"
  by (simp_all add: addExplosion_def Let_def others_shake)

lemma others_syncExplosions:
  "playerSprites (syncExplosions now es g) = playerSprites g"
  "bombSprites (syncExplosions now es g) = bombSprites g"
proof -
  have a: "playerSprites (fold (\<lambda>i h. if i \<notin> A then removeExplosion i h else h) ks h0)
             = playerSprites h0
        \<and> bombSprites (fold (\<lambda>i h. if i \<notin> A then removeExplosion i h else h) ks h0)
             = bombSprites h0" for A ks h0
    by (induction ks arbitrary: h0) (simp_all add: others_removeExplosion)
  have b: "playerSprites (fold (\<lambda>explosion h. if \<not> has (explosionSprites h) (e_id explosion)
                               then addExplosion now explosion h else h) xs h0)
             = playerSprites h0
         \<and> bombSprites (fold (\<lambda>explosion h. if \<not> has (explosionSprites h) (e_id explosion)
                               then addExplosion now explosion h else h) xs h0)
             = bombSprites h0" for xs h0
    by (induction xs arbitrary: h0) (simp_all add: others_addExplosion)
  show "playerSprites (syncExplosions now es g) = playerSprites g"
    "bombSprites (syncExplosions now es g) = bombSprites g"
    by (simp_all add: syncExplosions_def Let_def a b)
qed

subsection \<open>Single entries of the sprite maps\<close>

lemma entry_removePlayer:
  "i \<noteq> j \<Longrightarrow> map_of (playerSprites (removePlayer j g)) i = map_of (playerSprites g) i"
  by (simp add: removePlayer_def split: option.splits)

lemma entry_stale_players:
  "i \<in> A \<Longrightarrow>
   map_of (playerSprites (fold (\<lambda>j h. if j \<notin> A then removePlayer j h else h) ks g)) i
     = map_of (playerSprites g) i"
proof (induction ks arbitrary: g)
  case Nil
  show ?case by simp
next
  case (Cons k ks)
  show ?case
  proof (cases "k \<in> A")
    case True
    with Cons show ?thesis by simp
  next
    case False
    with Cons.prems have "i \<noteq> k" by auto
    with False Cons show ?thesis by (simp add: entry_removePlayer)
  qed
qed

lemma globalTime_stale_players:
  "globalTime (fold (\<lambda>j h. if j \<notin> A then removePlayer j h else h) ks g) = globalTime g"
  by (induction ks arbitrary: g) (simp_all add: removePlayer_def split: option.splits)

lemma globalTime_addPlayer: "globalTime (addPlayer d g) = globalTime g"
  by (simp add: addPlayer_def)

lemma globalTime_updatePlayer: "globalTime (updatePlayer now d g) = globalTime g"
  by (simp add: updatePlayer_def split: option.splits)

lemma entry_addPlayer:
  "map_of (playerSprites (addPlayer d g)) = (map_of (playerSprites g))(socketId d \<mapsto> newPlayerSprite d)"
  by (simp add: addPlayer_def AList.update_conv')

lemma entry_updatePlayer:
  "map_of (playerSprites g) (socketId d) = Some sp \<Longrightarrow>
   map_of (playerSprites (updatePlayer now d g))
     = (map_of (playerSprites g))(socketId d \<mapsto> updatePlayerSprite now (globalTime g) d sp)"
  by (simp add: updatePlayer_def AList.update_conv')

lemma entry_upsert_players_existing:
  "map_of (playerSprites g) i = Some sp \<Longrightarrow>
   map_of (playerSprites (fold (\<lambda>player h. if has (playerSprites h) (socketId player)
                            then updatePlayer now player h else addPlayer player h) ps g)) i
     = Some (fold (updatePlayerSprite now (globalTime g)) (filter (\<lambda>p. socketId p = i) ps) sp)"
proof (induction ps arbitrary: g sp)
  case Nil
  then show ?case by simp
next
  case (Cons p ps)
  show ?case
  proof (cases "socketId p = i")
    case True
    with Cons.prems have h: "has (playerSprites g) (socketId p)" by (simp add: has_def)
    from True Cons.prems have e: "map_of (playerSprites (updatePlayer now p g)) i
        = Some (updatePlayerSprite now (globalTime g) p sp)"
      by (simp add: entry_updatePlayer)
    show ?thesis using True h Cons.IH [OF e] by (simp add: globalTime_updatePlayer)
  next
    case False
    show ?thesis
    proof (cases "has (playerSprites g) (socketId p)")
      case True
      then obtain sq where q: "map_of (playerSprites g) (socketId p) = Some sq"
        by (auto simp: has_def)
      from False Cons.prems have e: "map_of (playerSprites (updatePlayer now p g)) i = Some sp"
        by (simp add: entry_updatePlayer [OF q])
      show ?thesis using False True Cons.IH [OF e] by (simp add: globalTime_updatePlayer)
    next
      case nh: False
      from False Cons.prems have e: "map_of (playerSprites (addPlayer p g)) i = Some sp"
        by (simp add: entry_addPlayer)
      show ?thesis using False nh Cons.IH [OF e] by (simp add: globalTime_addPlayer)
    qed
  qed
qed

lemma entry_upsert_players_absent:
  "map_of (playerSprites g) i = None \<Longrightarrow>
   map_of (playerSprites (fold (\<lambda>player h. if has (playerSprites h) (socketId player)
                            then updatePlayer now player h else addPlayer player h) ps g)) i
     = (case filter (\<lambda>p. socketId p = i) ps of
          [] \<Rightarrow> None
        | p # rest \<Rightarrow> Some (fold (updatePlayerSprite now (globalTime g)) rest (newPlayerSprite p)))"
proof (induction ps arbitrary: g)
  case Nil
  then show ?case by simp
next
  case (Cons p ps)
  show ?case
  proof (cases "socketId p = i")
    case True
    with Cons.prems have h: "\<not> has (playerSprites g) (socketId p)" by (simp add: has_def)
    from True have e: "map_of (playerSprites (addPlayer p g)) i = Some (newPlayerSprite p)"
      by (simp add: entry_addPlayer)
    show ?thesis using True h entry_upsert_players_existing [OF e, of now ps]
      by (simp add: globalTime_addPlayer)
  next
    case False
    show ?thesis
    proof (cases "has (playerSprites g) (socketId p)")
      case True
      then obtain sq where q: "map_of (playerSprites g) (socketId p) = Some sq"
        by (auto simp: has_def)
      from False Cons.prems have e: "map_of (playerSprites (updatePlayer now p g)) i = None"
        by (simp add: entry_updatePlayer [OF q])
      show ?thesis using False True Cons.IH [OF e]
        by (simp add: globalTime_updatePlayer cong: list.case_cong)
    next
      case nh: False
      from False Cons.prems have e: "map_of (playerSprites (addPlayer p g)) i = None"
        by (simp add: entry_addPlayer)
      show ?thesis using False nh Cons.IH [OF e]
        by (simp add: globalTime_addPlayer cong: list.case_cong)
    qed
  qed
qed

lemma entry_syncPlayers_existing:
  assumes "map_of (playerSprites g) i = Some sp" and "i \<in> socketId ` set ps"
  shows "map_of (playerSprites (syncPlayers now ps g)) i
     = Some (fold (updatePlayerSprite now (globalTime g)) (filter (\<lambda>p. socketId p = i) ps) sp)"
proof -
  let ?g1 = "fold (\<lambda>j h. if j \<notin> set (map socketId ps) then removePlayer j h else h)
                 (map fst (playerSprites g)) g"
  have "map_of (playerSprites ?g1) i = Some sp"
    using assms by (simp add: entry_stale_players)
  from entry_upsert_players_existing [OF this, of now ps]
  show ?thesis by (simp add: syncPlayers_def Let_def globalTime_stale_players)
qed

lemma absent_stale_players:
  "map_of (playerSprites g) i = None \<Longrightarrow>
   map_of (playerSprites (fold (\<lambda>j h. if j \<notin> A then removePlayer j h else h) ks g)) i = None"
proof (induction ks arbitrary: g)
  case Nil
  then show ?case by simp
next
  case (Cons k ks)
  have "map_of (playerSprites (removePlayer k g)) i = None"
    using Cons.prems by (simp add: removePlayer_def AList.delete_conv' split: option.splits)
  with Cons show ?case by simp
qed

lemma entry_syncPlayers_new:
  assumes "map_of (playerSprites g) i = None"
  shows "map_of (playerSprites (syncPlayers now ps g)) i
     = (case filter (\<lambda>p. socketId p = i) ps of
          [] \<Rightarrow> None
        | p # rest \<Rightarrow> Some (fold (updatePlayerSprite now (globalTime g)) rest (newPlayerSprite p)))"
proof -
  let ?g1 = "fold (\<lambda>j h. if j \<notin> set (map socketId ps) then removePlayer j h else h)
                 (map fst (playerSprites g)) g"
  have "map_of (playerSprites ?g1) i = None"
    using assms by (rule absent_stale_players)
  from entry_upsert_players_absent [OF this, of now ps]
  show ?thesis by (simp add: syncPlayers_def Let_def globalTime_stale_players cong: list.case_cong)
qed

lemma entry_removeBomb:
  "i \<noteq> j \<Longrightarrow> map_of (bombSprites (removeBomb j g)) i = map_of (bombSprites g) i"
  by (simp add: removeBomb_def split: option.splits)

lemma entry_stale_bombs:
  "i \<in> A \<Longrightarrow>
   map_of (bombSprites (fold (\<lambda>j h. if j \<notin> A then removeBomb j h else h) ks g)) i
     = map_of (bombSprites g) i"
proof (induction ks arbitrary: g)
  case Nil
  show ?case by simp
next
  case (Cons k ks)
  show ?case
  proof (cases "k \<in> A")
    case True
    with Cons show ?thesis by simp
  next
    case False
    with Cons.prems have "i \<noteq> k" by auto
    with False Cons show ?thesis by (simp add: entry_removeBomb)
  qed
qed

lemma absent_stale_bombs:
  "map_of (bombSprites g) i = None \<Longrightarrow>
   map_of (bombSprites (fold (\<lambda>j h. if j \<notin> A then removeBomb j h else h) ks g)) i = None"
proof (induction ks arbitrary: g)
  case Nil
  then show ?case by simp
next
  case (Cons k ks)
  have "map_of (bombSprites (removeBomb k g)) i = None"
    using Cons.prems by (simp add: removeBomb_def AList.delete_conv' split: option.splits)
  with Cons show ?case by simp
qed

lemma entry_addBomb:
  "map_of (bombSprites (addBomb d g)) = (map_of (bombSprites g))(b_id d \<mapsto> newBombSprite d)"
  by (simp add: addBomb_def AList.update_conv')

lemma entry_updateBomb:
  "map_of (bombSprites g) (b_id d) = Some sp \<Longrightarrow>
   map_of (bombSprites (updateBomb d g))
     = (map_of (bombSprites g))(b_id d \<mapsto> updateBombSprite d sp)"
  by (simp add: updateBomb_def AList.update_conv')

lemma entry_upsert_bombs_existing:
  "map_of (bombSprites g) i = Some sp \<Longrightarrow>
   map_of (bombSprites (fold (\<lambda>bomb h. if has (bombSprites h) (b_id bomb)
                          then updateBomb bomb h else addBomb bomb h) bs g)) i
     = Some (fold updateBombSprite (filter (\<lambda>b. b_id b = i) bs) sp)"
proof (induction bs arbitrary: g sp)
  case Nil
  then show ?case by simp
next
  case (Cons b bs)
  show ?case
  proof (cases "b_id b = i")
    case True
    with Cons.prems have h: "has (bombSprites g) (b_id b)" by (simp add: has_def)
    from True Cons.prems have e: "map_of (bombSprites (updateBomb b g)) i
        = Some (updateBombSprite b sp)"
      by (simp add: entry_updateBomb)
    show ?thesis using True h Cons.IH [OF e] by simp
  next
    case False
    show ?thesis
    proof (cases "has (bombSprites g) (b_id b)")
      case True
      then obtain sq where q: "map_of (bombSprites g) (b_id b) = Some sq"
        by (auto simp: has_def)
      from False Cons.prems have e: "map_of (bombSprites (updateBomb b g)) i = Some sp"
        by (simp add: entry_updateBomb [OF q])
      show ?thesis using False True Cons.IH [OF e] by simp
    next
      case nh: False
      from False Cons.prems have e: "map_of (bombSprites (addBomb b g)) i = Some sp"
        by (simp add: entry_addBomb)
      show ?thesis using False nh Cons.IH [OF e] by simp
    qed
  qed
qed

lemma entry_upsert_bombs_absent:
  "map_of (bombSprites g) i = None \<Longrightarrow>
   map_of (bombSprites (fold (\<lambda>bomb h. if has (bombSprites h) (b_id bomb)
                          then updateBomb bomb h else addBomb bomb h) bs g)) i
     = (case filter (\<lambda>b. b_id b = i) bs of
          [] \<Rightarrow> None
        | b # rest \<Rightarrow> Some (fold updateBombSprite rest (newBombSprite b)))"
proof (induction bs arbitrary: g)
  case Nil
  then show ?case by simp
next
  case (Cons b bs)
  show ?case
  proof (cases "b_id b = i")
    case True
    with Cons.prems have h: "\<not> has (bombSprites g) (b_id b)" by (simp add: has_def)
    from True have e: "map_of (bombSprites (addBomb b g)) i = Some (newBombSprite b)"
      by (simp add: entry_addBomb)
    show ?thesis using True h entry_upsert_bombs_existing [OF e, of bs] by simp
  next
    case False
    show ?thesis
    proof (cases "has (bombSprites g) (b_id b)")
      case True
      then obtain sq where q: "map_of (bombSprites g) (b_id b) = Some sq"
        by (auto simp: has_def)
      from False Cons.prems have e: "map_of (bombSprites (updateBomb b g)) i = None"
        by (simp add: entry_updateBomb [OF q])
      show ?thesis using False True Cons.IH [OF e] by simp
    next
      case nh: False
      from False Cons.prems have e: "map_of (bombSprites (addBomb b g)) i = None"
        by (simp add: entry_addBomb)
      show ?thesis using False nh Cons.IH [OF e] by simp
    qed
  qed
qed

lemma entry_syncBombs_existing:
  assumes "map_of (bombSprites g) i = Some sp" and "i \<in> b_id ` set bs"
  shows "map_of (bombSprites (syncBombs bs g)) i
     = Some (fold updateBombSprite (filter (\<lambda>b. b_id b = i) bs) sp)"
proof -
  let ?g1 = "fold (\<lambda>j h. if j \<notin> set (map b_id bs) then removeBomb j h else h)
                 (map fst (bombSprites g)) g"
  have "map_of (bombSprites ?g1) i = Some sp"
    using assms by (simp add: entry_stale_bombs)
  from entry_upsert_bombs_existing [OF this, of bs]
  show ?thesis by (simp add: syncBombs_def Let_def)
qed

lemma entry_syncBombs_new:
  assumes "map_of (bombSprites g) i = None"
  shows "map_of (bombSprites (syncBombs bs g)) i
     = (case filter (\<lambda>b. b_id b = i) bs of
          [] \<Rightarrow> None
        | b # rest \<Rightarrow> Some (fold updateBombSprite rest (newBombSprite b)))"
proof -
  let ?g1 = "fold (\<lambda>j h. if j \<notin> set (map b_id bs) then removeBomb j h else h)
                 (map fst (bombSprites g)) g"
  have "map_of (bombSprites ?g1) i = None"
    using assms by (rule absent_stale_bombs)
  from entry_upsert_bombs_absent [OF this, of bs]
  show ?thesis by (simp add: syncBombs_def Let_def)
qed

lemma entry_removeExplosion:
  "i \<noteq> j \<Longrightarrow> map_of (explosionSprites (removeExplosion j g)) i = map_of (explosionSprites g) i"
  by (simp add: removeExplosion_def split: option.splits)

lemma entry_stale_explosions:
  "i \<in> A \<Longrightarrow>
   map_of (explosionSprites (fold (\<lambda>j h. if j \<notin> A then removeExplosion j h else h) ks g)) i
     = map_of (explosionSprites g) i"
proof (induction ks arbitrary: g)
  case Nil
  show ?case by simp
next
  case (Cons k ks)
  show ?case
  proof (cases "k \<in> A")
    case True
    with Cons show ?thesis by simp
  next
    case False
    with Cons.prems have "i \<noteq> k" by auto
    with False Cons show ?thesis by (simp add: entry_removeExplosion)
  qed
qed

lemma absent_stale_explosions:
  "map_of (explosionSprites g) i = None \<Longrightarrow>
   map_of (explosionSprites (fold (\<lambda>j h. if j \<notin> A then removeExplosion j h else h) ks g)) i = None"
proof (induction ks arbitrary: g)
  case Nil
  then show ?case by simp
next
  case (Cons k ks)
  have "map_of (explosionSprites (removeExplosion k g)) i = None"
    using Cons.prems by (simp add: removeExplosion_def AList.delete_conv' split: option.splits)
  with Cons show ?case by simp
qed

lemma entry_addExplosion:
  "map_of (explosionSprites (addExplosion now d g))
     = (map_of (explosionSprites g))(e_id d \<mapsto> newExplosionSprite now d)"
  by (simp add: addExplosion_def Let_def explosionSprites_shake AList.update_conv')

lemma entry_insert_explosions_existing:
  "map_of (explosionSprites g) i = Some sp \<Longrightarrow>
   map_of (explosionSprites (fold (\<lambda>explosion h. if \<not> has (explosionSprites h) (e_id explosion)
                               then addExplosion now explosion h else h) es g)) i
     = Some sp"
proof (induction es arbitrary: g)
  case Nil
  then show ?case by simp
next
  case (Cons e es)
  show ?case
  proof (cases "has (explosionSprites g) (e_id e)")
    case True
    with Cons show ?thesis by simp
  next
    case False
    with Cons.prems have "e_id e \<noteq> i" by (auto simp: has_def)
    with Cons.prems have "map_of (explosionSprites (addExplosion now e g)) i = Some sp"
      by (simp add: entry_addExplosion)
    from Cons.IH [OF this] False show ?thesis by simp
  qed
qed

lemma entry_insert_explosions_absent:
  "map_of (explosionSprites g) i = None \<Longrightarrow>
   map_of (explosionSprites (fold (\<lambda>explosion h. if \<not> has (explosionSprites h) (e_id explosion)
                               then addExplosion now explosion h else h) es g)) i
     = (case filter (\<lambda>e. e_id e = i) es of
          [] \<Rightarrow> None
        | e # rest \<Rightarrow> Some (newExplosionSprite now e))"
proof (induction es arbitrary: g)
  case Nil
  then show ?case by simp
next
  case (Cons e es)
  show ?case
  proof (cases "e_id e = i")
    case True
    with Cons.prems have h: "\<not> has (explosionSprites g) (e_id e)" by (simp add: has_def)
    from True have "map_of (explosionSprites (addExplosion now e g)) i = Some (newExplosionSprite now e)"
      by (simp add: entry_addExplosion)
    from entry_insert_explosions_existing [OF this, of now es] True h show ?thesis by simp
  next
    case False
    show ?thesis
    proof (cases "has (explosionSprites g) (e_id e)")
      case True
      with False Cons show ?thesis by simp
    next
      case nh: False
      from False Cons.prems have "map_of (explosionSprites (addExplosion now e g)) i = None"
        by (simp add: entry_addExplosion)
      from Cons.IH [OF this] False nh show ?thesis by simp
    qed
  qed
qed

lemma entry_syncExplosions_existing:
  assumes "map_of (explosionSprites g) i = Some sp" and "i \<in> e_id ` set es"
  shows "map_of (explosionSprites (syncExplosions now es g)) i = Some sp"
proof -
  let ?g1 = "fold (\<lambda>j h. if j \<notin> set (map e_id es) then removeExplosion j h else h)
                 (map fst (explosionSprites g)) g"
  have "map_of (explosionSprites ?g1) i = Some sp"
    using assms by (simp add: entry_stale_explosions)
  from entry_insert_explosions_existing [OF this, of now es]
  show ?thesis by (simp add: syncExplosions_def Let_def)
qed

lemma entry_syncExplosions_new:
  assumes "map_of (explosionSprites g) i = None"
  shows "map_of (explosionSprites (syncExplosions now es g)) i
     = (case filter (\<lambda>e. e_id e = i) es of
          [] \<Rightarrow> None
        | e # rest \<Rightarrow> Some (newExplosionSprite now e))"
proof -
  let ?g1 = "fold (\<lambda>j h. if j \<notin> set (map e_id es) then removeExplosion j h else h)
                 (map fst (explosionSprites g)) g"
  have "map_of (explosionSprites ?g1) i = None"
    using assms by (rule absent_stale_explosions)
  from entry_insert_explosions_absent [OF this, of now es]
  show ?thesis by (simp add: syncExplosions_def Let_def)
qed

lemma others_syncPlayers:
  "bombSprites (syncPlayers now ps g) = bombSprites g"
  "explosionSprites (syncPlayers now ps g) = explosionSprites g"
proof -
  have a: "bombSprites (fold (\<lambda>i h. if i \<notin> A then removePlayer i h else h) ks h0) = bombSprites h0
        \<and> explosionSprites (fold (\<lambda>i h. if i \<notin> A then removePlayer i h else h) ks h0)
            = explosionSprites h0" for A ks h0
    by (induction ks arbitrary: h0) (simp_all add: removePlayer_def split: option.splits)
  have b: "bombSprites (fold (\<lambda>player h. if has (playerSprites h) (socketId player)
                            then updatePlayer now player h else addPlayer player h) xs h0)
             = bombSprites h0
         \<and> explosionSprites (fold (\<lambda>player h. if has (playerSprites h) (socketId player)
                            then updatePlayer now player h else addPlayer player h) xs h0)
             = explosionSprites h0" for xs h0
    by (induction xs arbitrary: h0)
      (simp_all add: updatePlayer_def addPlayer_def split: option.splits)
  show "bombSprites (syncPlayers now ps g) = bombSprites g"
    "explosionSprites (syncPlayers now ps g) = explosionSprites g"
    by (simp_all add: syncPlayers_def Let_def a b)
qed

lemma explosionSprites_syncBombs: "explosionSprites (syncBombs bs g) = explosionSprites g"
proof -
  have a: "explosionSprites (fold (\<lambda>i h. if i \<notin> A then removeBomb i h else h) ks h0)
             = explosionSprites h0" for A ks h0
    by (induction ks arbitrary: h0) (simp_all add: removeBomb_def split: option.splits)
  have b: "explosionSprites (fold (\<lambda>bomb h. if has (bombSprites h) (b_id bomb)
                          then updateBomb bomb h else addBomb bomb h) xs h0)
             = explosionSprites h0" for xs h0
    by (induction xs arbitrary: h0) (simp_all add: updateBomb_def addBomb_def split: option.splits)
  show ?thesis by (simp add: syncBombs_def Let_def a b)
qed

lemma filter_distinct_key:
  "distinct (map f xs) \<Longrightarrow> x \<in> set xs \<Longrightarrow> filter (\<lambda>y. f y = f x) xs = [x]"
proof (induction xs)
  case Nil
  then show ?case by simp
next
  case (Cons a xs)
  show ?case
  proof (cases "a = x")
    case True
    with Cons.prems have "f x \<notin> f ` set xs" by simp
    then have "\<forall>y\<in>set xs. f y \<noteq> f x" by (metis imageI)
    then have "filter (\<lambda>y. f y = f x) xs = []"
      by (simp add: filter_empty_conv)
    with True show ?thesis by simp
  next
    case False
    with Cons.prems have "x \<in> set xs" "f a \<noteq> f x" by auto
    with Cons show ?thesis by simp
  qed
qed

subsection \<open>The death timestamp under updatePlayer\<close>

lemma updatePlayerSprite_dead:
  "\<not> p_alive d \<Longrightarrow> \<not> p_alive (ps_data sp) \<Longrightarrow>
   ps_deathTime (updatePlayerSprite now gt d sp) = ps_deathTime sp
   \<and> \<not> p_alive (ps_data (updatePlayerSprite now gt d sp))"
  by (simp add: updatePlayerSprite_def Let_def)

lemma updatePlayerSprite_dies:
  "\<not> p_alive d \<Longrightarrow> p_alive (ps_data sp) \<Longrightarrow>
   ps_deathTime (updatePlayerSprite now gt d sp) = now
   \<and> \<not> p_alive (ps_data (updatePlayerSprite now gt d sp))"
  by (simp add: updatePlayerSprite_def Let_def)

lemma fold_updatePlayerSprite_dead:
  "\<forall>d \<in> set ds. \<not> p_alive d \<Longrightarrow> \<not> p_alive (ps_data sp) \<Longrightarrow>
   ps_deathTime (fold (updatePlayerSprite now gt) ds sp) = ps_deathTime sp
   \<and> \<not> p_alive (ps_data (fold (updatePlayerSprite now gt) ds sp))"
proof (induction ds arbitrary: sp)
  case Nil
  then show ?case by simp
next
  case (Cons d ds)
  from Cons.prems have d: "\<not> p_alive d" by simp
  from updatePlayerSprite_dead [OF d Cons.prems(2), of now gt] Cons.IH [of "updatePlayerSprite now gt d sp"] Cons.prems(1)
  show ?case by simp
qed

lemma fold_updatePlayerSprite_dies:
  assumes "\<forall>d \<in> set ds. \<not> p_alive d" and "ds \<noteq> []" and "p_alive (ps_data sp)"
  shows "ps_deathTime (fold (updatePlayerSprite now gt) ds sp) = now
   \<and> \<not> p_alive (ps_data (fold (updatePlayerSprite now gt) ds sp))"
proof (cases ds)
  case Nil
  with assms show ?thesis by simp
next
  case (Cons d rest)
  with assms have d: "\<not> p_alive d" and r: "\<forall>d \<in> set rest. \<not> p_alive d" by simp_all
  from updatePlayerSprite_dies [OF d assms(3), of now gt]
    fold_updatePlayerSprite_dead [OF r, of "updatePlayerSprite now gt d sp" now gt] Cons
  show ?thesis by simp
qed


subsection \<open>Single entries after updateFromLobby\<close>

lemma entry_updateFromLobby_player_existing:
  assumes "initialized g" and "map_of (playerSprites g) i = Some sp"
    and "i \<in> socketId ` set (l_players lobby)"
  shows "map_of (playerSprites (updateFromLobby now lobby g)) i
     = Some (fold (updatePlayerSprite now (globalTime g))
               (filter (\<lambda>p. socketId p = i) (l_players lobby)) sp)"
proof -
  let ?g1 = "g\<lparr>currentLobby := Some lobby, mySocketId := l_mySocketId lobby\<rparr>"
  let ?g2 = "case Option.bind (l_gameData lobby) gd_tiles of
               Some ts \<Rightarrow> ?g1\<lparr>tiles := ts\<rparr> | None \<Rightarrow> ?g1"
  have a: "map_of (playerSprites ?g2) i = Some sp" "globalTime ?g2 = globalTime g"
    using assms(2) by (simp_all split: option.splits)
  from entry_syncPlayers_existing [OF a(1) assms(3), of now] a(2) assms(1)
  show ?thesis
    by (simp add: updateFromLobby_def Let_def playerSprites_syncBombs others_syncExplosions
        split: option.splits)
qed

lemma entry_updateFromLobby_player_new:
  assumes "initialized g" and "map_of (playerSprites g) i = None"
  shows "map_of (playerSprites (updateFromLobby now lobby g)) i
     = (case filter (\<lambda>p. socketId p = i) (l_players lobby) of
          [] \<Rightarrow> None
        | p # rest \<Rightarrow> Some (fold (updatePlayerSprite now (globalTime g)) rest (newPlayerSprite p)))"
proof -
  let ?g1 = "g\<lparr>currentLobby := Some lobby, mySocketId := l_mySocketId lobby\<rparr>"
  let ?g2 = "case Option.bind (l_gameData lobby) gd_tiles of
               Some ts \<Rightarrow> ?g1\<lparr>tiles := ts\<rparr> | None \<Rightarrow> ?g1"
  have a: "map_of (playerSprites ?g2) i = None" "globalTime ?g2 = globalTime g"
    using assms(2) by (simp_all split: option.splits)
  from entry_syncPlayers_new [OF a(1), of now "l_players lobby"] a(2) assms(1)
  show ?thesis
    by (simp add: updateFromLobby_def Let_def playerSprites_syncBombs others_syncExplosions
        split: option.splits cong: list.case_cong)
qed

lemma entry_updateFromLobby_bomb_existing:
  assumes "initialized g" and "l_gameData lobby = Some gd" and "gd_bombs gd = Some bs"
    and "map_of (bombSprites g) i = Some sp" and "i \<in> b_id ` set bs"
  shows "map_of (bombSprites (updateFromLobby now lobby g)) i
     = Some (fold updateBombSprite (filter (\<lambda>b. b_id b = i) bs) sp)"
proof -
  let ?g1 = "g\<lparr>currentLobby := Some lobby, mySocketId := l_mySocketId lobby\<rparr>"
  let ?g2 = "case Option.bind (l_gameData lobby) gd_tiles of
               Some ts \<Rightarrow> ?g1\<lparr>tiles := ts\<rparr> | None \<Rightarrow> ?g1"
  let ?g3 = "syncPlayers now (l_players lobby) ?g2"
  have a: "map_of (bombSprites ?g3) i = Some sp"
    using assms(4) by (simp add: others_syncPlayers split: option.splits)
  from entry_syncBombs_existing [OF a assms(5)] assms(1,2,3)
  show ?thesis
    by (simp add: updateFromLobby_def Let_def others_syncExplosions split: option.splits)
qed

lemma entry_updateFromLobby_bomb_new:
  assumes "initialized g" and "l_gameData lobby = Some gd" and "gd_bombs gd = Some bs"
    and "map_of (bombSprites g) i = None"
  shows "map_of (bombSprites (updateFromLobby now lobby g)) i
     = (case filter (\<lambda>b. b_id b = i) bs of
          [] \<Rightarrow> None
        | b # rest \<Rightarrow> Some (fold updateBombSprite rest (newBombSprite b)))"
proof -
  let ?g1 = "g\<lparr>currentLobby := Some lobby, mySocketId := l_mySocketId lobby\<rparr>"
  let ?g2 = "case Option.bind (l_gameData lobby) gd_tiles of
               Some ts \<Rightarrow> ?g1\<lparr>tiles := ts\<rparr> | None \<Rightarrow> ?g1"
  let ?g3 = "syncPlayers now (l_players lobby) ?g2"
  have a: "map_of (bombSprites ?g3) i = None"
    using assms(4) by (simp add: others_syncPlayers split: option.splits)
  from entry_syncBombs_new [OF a, of bs] assms(1,2,3)
  show ?thesis
    by (simp add: updateFromLobby_def Let_def others_syncExplosions split: option.splits)
qed

lemma entry_updateFromLobby_explosion_existing:
  assumes "initialized g" and "l_gameData lobby = Some gd" and "gd_explosions gd = Some es"
    and "map_of (explosionSprites g) i = Some sp" and "i \<in> e_id ` set es"
  shows "map_of (explosionSprites (updateFromLobby now lobby g)) i = Some sp"
proof -
  let ?g1 = "g\<lparr>currentLobby := Some lobby, mySocketId := l_mySocketId lobby\<rparr>"
  let ?g2 = "case Option.bind (l_gameData lobby) gd_tiles of
               Some ts \<Rightarrow> ?g1\<lparr>tiles := ts\<rparr> | None \<Rightarrow> ?g1"
  let ?g3 = "syncPlayers now (l_players lobby) ?g2"
  let ?g4 = "case Option.bind (l_gameData lobby) gd_bombs of
               Some bs \<Rightarrow> syncBombs bs ?g3 | None \<Rightarrow> ?g3"
  have a: "map_of (explosionSprites ?g4) i = Some sp"
    using assms(4) by (simp add: others_syncPlayers explosionSprites_syncBombs split: option.splits)
  from entry_syncExplosions_existing [OF a assms(5), of now] assms(1,2,3)
  show ?thesis
    by (simp add: updateFromLobby_def Let_def split: option.splits)
qed

lemma entry_updateFromLobby_explosion_new:
  assumes "initialized g" and "l_gameData lobby = Some gd" and "gd_explosions gd = Some es"
    and "map_of (explosionSprites g) i = None"
  shows "map_of (explosionSprites (updateFromLobby now lobby g)) i
     = (case filter (\<lambda>e. e_id e = i) es of
          [] \<Rightarrow> None
        | e # rest \<Rightarrow> Some (newExplosionSprite now e))"
proof -
  let ?g1 = "g\<lparr>currentLobby := Some lobby, mySocketId := l_mySocketId lobby\<rparr>"
  let ?g2 = "case Option.bind (l_gameData lobby) gd_tiles of
               Some ts \<Rightarrow> ?g1\<lparr>tiles := ts\<rparr> | None \<Rightarrow> ?g1"
  let ?g3 = "syncPlayers now (l_players lobby) ?g2"
  let ?g4 = "case Option.bind (l_gameData lobby) gd_bombs of
               Some bs \<Rightarrow> syncBombs bs ?g3 | None \<Rightarrow> ?g3"
  have a: "map_of (explosionSprites ?g4) i = None"
    using assms(4) by (simp add: others_syncPlayers explosionSprites_syncBombs split: option.splits)
  from entry_syncExplosions_new [OF a, of now es] assms(1,2,3)
  show ?thesis
    by (simp add: updateFromLobby_def Let_def split: option.splits)
qed

subsection \<open>Facts about the examples and the update bodies\<close>

lemma updatePlayerSprite_fields:
  "ps_data (updatePlayerSprite now gt d sp) = d"
  "ps_targetX (updatePlayerSprite now gt d sp) = fst (gridToPixel (p_gridX d) (p_gridY d))"
  "ps_targetY (updatePlayerSprite now gt d sp) = snd (gridToPixel (p_gridX d) (p_gridY d))"
  by (simp_all add: updatePlayerSprite_def Let_def)

lemma updateBombSprite_fields:
  "bs_data (updateBombSprite d sp) = d"
  "bs_targetX (updateBombSprite d sp) = fst (gridToPixel (b_gridX d) (b_gridY d))"
  "bs_targetY (updateBombSprite d sp) = snd (gridToPixel (b_gridX d) (b_gridY d))"
  by (simp_all add: updateBombSprite_def Let_def)

lemma gameA_facts:
  "initialized gameA"
  "map_of (playerSprites gameA) ''a1'' = Some (newPlayerSprite alice)"
  "map_of (bombSprites gameA) ''bomb-1'' = Some (newBombSprite bombA)"
  "map_of (explosionSprites gameA) ''ex-1'' = Some (newExplosionSprite 1000 blastA)"
  "globalTime gameA = 0"
  by (simp_all add: gameA_def newGame_def)

lemma lobbyD_facts:
  "l_players lobbyD = [aliceMoved, bob]"
  "l_gameData lobbyD = Some gameDataD"
  "gd_bombs gameDataD = Some [bombMoved]"
  "gd_explosions gameDataD = Some [blastMoved]"
  "socketId aliceMoved = ''a1''" "socketId bob = ''b2''"
  "b_id bombMoved = ''bomb-1''" "e_id blastMoved = ''ex-1''"
  by (simp_all add: lobbyD_def gameDataD_def aliceMoved_def alice_def bob_def bombMoved_def
      bombA_def blastMoved_def blastA_def)

subsection \<open>Player sprites under frames and key events\<close>

lemma playerSprites_dispatchMove: "playerSprites (dispatchMove now d g) = playerSprites g"
  by (simp add: dispatchMove_def split: option.splits)

lemma playerSprites_processHeldKeys: "playerSprites (processHeldKeys now g) = playerSprites g"
  by (simp add: processHeldKeys_def Let_def playerSprites_dispatchMove)

lemma playerSprites_handleKeyDown: "playerSprites (handleKeyDown now ev g) = playerSprites g"
  by (simp add: handleKeyDown_def Let_def playerSprites_dispatchMove)

lemma playerSprites_handleKeyUp: "playerSprites (handleKeyUp ev g) = playerSprites g"
  by (simp add: handleKeyUp_def)

lemma playerSprites_updateCamera: "playerSprites (updateCamera inner g) = playerSprites g"
  by (simp add: updateCamera_def Let_def)

lemma playerSprites_applyShake: "playerSprites (applyShake r1 r2 g) = playerSprites g"
  by (simp add: applyShake_def Let_def)

lemma playerSprites_update:
  "playerSprites (update env g) = map (\<lambda>(i, sprite). (i, animatePlayer sprite)) (playerSprites g)"
  by (simp add: update_def Let_def playerSprites_applyShake playerSprites_updateCamera
      playerSprites_processHeldKeys)

lemma entry_update:
  "map_of (playerSprites (update env g)) i = map_option animatePlayer (map_of (playerSprites g) i)"
  by (simp add: playerSprites_update map_of_map)

lemma reportedDead_snapshot:
  assumes "reportedDead i t0 g" and "observesDead i lobby"
  shows "reportedDead i t0 (updateFromLobby now lobby g)"
proof (cases "initialized g")
  case False
  with assms show ?thesis by (simp add: updateFromLobby_def)
next
  case True
  from assms(1) obtain sp where sp: "map_of (playerSprites g) i = Some sp"
    "ps_deathTime sp = t0" "\<not> p_alive (ps_data sp)"
    by (auto simp: reportedDead_def split: option.splits)
  from assms(2) have m: "i \<in> socketId ` set (l_players lobby)"
    and d: "\<forall>d \<in> set (filter (\<lambda>p. socketId p = i) (l_players lobby)). \<not> p_alive d"
    by (auto simp: observesDead_def)
  from entry_updateFromLobby_player_existing [OF True sp(1) m, of now]
    fold_updatePlayerSprite_dead [OF d sp(3), of now "globalTime g"] sp(2)
  show ?thesis by (simp add: reportedDead_def)
qed

lemma reportedDead_step:
  assumes "reportedDead i t0 g" and "carriesDead i ev"
  shows "reportedDead i t0 (step ev g)"
proof (cases ev)
  case (Snapshot now lobby)
  with assms show ?thesis by (simp add: reportedDead_snapshot)
next
  case (Frame env)
  with assms(1) show ?thesis
    by (auto simp: reportedDead_def entry_update animatePlayer_def split: option.splits)
next
  case (KeyDown now kev)
  with assms(1) show ?thesis by (simp add: reportedDead_def playerSprites_handleKeyDown)
next
  case (KeyUp kev)
  with assms(1) show ?thesis by (simp add: reportedDead_def playerSprites_handleKeyUp)
qed

lemma reportedDead_run:
  "reportedDead i t0 g \<Longrightarrow> \<forall>ev \<in> set evs. carriesDead i ev \<Longrightarrow> reportedDead i t0 (run evs g)"
  unfolding run_def by (induction evs arbitrary: g) (simp_all add: reportedDead_step)

lemma newBombSprite_bombA:
  "bs_wrapBouncePhase (newBombSprite bombA) = 0"
  "bs_wrapBounceDir (newBombSprite bombA) = None"
  "bs_targetX (newBombSprite bombA) = 20"
  "bs_targetY (newBombSprite bombA) = 140"
  by (simp_all add: newBombSprite_def Let_def bombA_def gridToPixel_def TILE_SIZE_def)

lemma world_size: "worldWidth = 760" "worldHeight = 600"
  by (simp_all add: worldWidth_def worldHeight_def GRID_WIDTH_def GRID_HEIGHT_def TILE_SIZE_def)

lemma example_viewports:
  "containerWidth (1024, 768) gameA = 800" "containerHeight (1024, 768) gameA = 600"
  "containerWidth (1024, 768) gameFollow = 400" "containerHeight (1024, 768) gameFollow = 300"
  "containerWidth (1024, 768) gameSmall = 400" "containerHeight (1024, 768) gameSmall = 300"
  "containerWidth (640, 480) gameNoLocal = 640" "containerHeight (640, 480) gameNoLocal = 480"
  by (simp_all add: containerWidth_def containerHeight_def or_else_def gameA_def newGame_def
      gameFollow_def gameSmall_def gameNoLocal_def)

lemma example_localSprites:
  "localSprite gameFollow = Some (newPlayerSprite dave)"
  "localSprite gameSmall = Some (newPlayerSprite bob)"
  "localSprite gameNoLocal = None"
  by (simp_all add: localSprite_def truthy_def gameFollow_def gameSmall_def gameNoLocal_def
      gameA_def newGame_def)

lemma example_positions:
  "ps_x (newPlayerSprite dave) = 300" "ps_y (newPlayerSprite dave) = 300"
  "ps_x (newPlayerSprite bob) = 700" "ps_y (newPlayerSprite bob) = 540"
  by (simp_all add: newPlayerSprite_def Let_def gridToPixel_def TILE_SIZE_def dave_def bob_def)

lemma impulseIntensity_antimono: "d1 \<le> d2 \<Longrightarrow> impulseIntensity d2 \<le> impulseIntensity d1"
  by (auto simp: impulseIntensity_def field_simps)

lemma sqrt_examples: "sqrt (49 / 4) = 7 / 2" "sqrt 36 = 6"
  by (rule real_sqrt_unique, simp_all add: power2_eq_square)+

lemma mySocketId_shake: "mySocketId (triggerExplosionShake x y g) = mySocketId g"
  by (simp add: triggerExplosionShake_def Let_def split: option.splits)

lemma localSprite_shake: "localSprite (triggerExplosionShake x y g) = localSprite g"
  by (simp add: localSprite_def mySocketId_shake others_shake)

lemma localSprite_gameA: "localSprite gameA = Some (newPlayerSprite alice)"
  "shakeIntensity gameA = 0"
  "p_gridX (ps_data (newPlayerSprite alice)) = 1" "p_gridY (ps_data (newPlayerSprite alice)) = 1"
  by (simp_all add: localSprite_def truthy_def gameA_def newGame_def newPlayerSprite_def Let_def
      alice_def)

subsection \<open>The wrap bounce, frame by frame\<close>

lemma animateBomb_phase:
  "0 < bs_wrapBouncePhase s \<Longrightarrow> bs_wrapBouncePhase s < 2 \<Longrightarrow>
   bs_wrapBouncePhase (animateBomb s)
     = (if 2 \<le> bs_wrapBouncePhase s + 0.08 then 0 else bs_wrapBouncePhase s + 0.08)"
  by (simp add: animateBomb_def Let_def)

lemma animateBomb_completes:
  "0 < bs_wrapBouncePhase s \<Longrightarrow> bs_wrapBouncePhase s < 2 \<Longrightarrow>
   2 \<le> bs_wrapBouncePhase s + 0.08 \<Longrightarrow> wrapIdle (animateBomb s)"
  by (simp add: animateBomb_def Let_def wrapIdle_def)

lemma animateBomb_idle: "wrapIdle s \<Longrightarrow> wrapIdle (animateBomb s)"
  by (simp add: animateBomb_def Let_def wrapIdle_def)

lemma animateBomb_invariant:
  assumes "(0 < bs_wrapBouncePhase s \<and> bs_wrapBouncePhase s < 2) \<or> wrapIdle s"
  shows "(0 < bs_wrapBouncePhase (animateBomb s) \<and> bs_wrapBouncePhase (animateBomb s) < 2)
         \<or> wrapIdle (animateBomb s)"
proof (cases "wrapIdle s")
  case True
  then show ?thesis by (simp add: animateBomb_idle)
next
  case False
  with assms have r: "0 < bs_wrapBouncePhase s" "bs_wrapBouncePhase s < 2" by simp_all
  show ?thesis
  proof (cases "2 \<le> bs_wrapBouncePhase s + 0.08")
    case True
    with r show ?thesis by (simp add: animateBomb_completes)
  next
    case False
    with r show ?thesis by (simp add: animateBomb_phase)
  qed
qed

lemma animateBomb_invariant_iter:
  "(0 < bs_wrapBouncePhase s \<and> bs_wrapBouncePhase s < 2) \<or> wrapIdle s \<Longrightarrow>
   (0 < bs_wrapBouncePhase ((animateBomb ^^ n) s) \<and> bs_wrapBouncePhase ((animateBomb ^^ n) s) < 2)
     \<or> wrapIdle ((animateBomb ^^ n) s)"
  by (induction n) (simp_all add: animateBomb_invariant)

lemma phase_progress:
  "0 < bs_wrapBouncePhase s \<Longrightarrow> bs_wrapBouncePhase s + 0.08 * real n < 2 \<Longrightarrow>
   bs_wrapBouncePhase ((animateBomb ^^ n) s) = bs_wrapBouncePhase s + 0.08 * real n"
proof (induction n)
  case 0
  then show ?case by simp
next
  case (Suc n)
  from Suc.prems have lt: "bs_wrapBouncePhase s + 0.08 * real n < 2"
    by (simp add: field_simps)
  from Suc.IH [OF Suc.prems(1) lt]
  have e: "bs_wrapBouncePhase ((animateBomb ^^ n) s) = bs_wrapBouncePhase s + 0.08 * real n" .
  have pos: "0 < bs_wrapBouncePhase ((animateBomb ^^ n) s)"
    using e Suc.prems(1) by simp
  have lt2: "bs_wrapBouncePhase ((animateBomb ^^ n) s) < 2" using e lt by simp
  have "\<not> 2 \<le> bs_wrapBouncePhase ((animateBomb ^^ n) s) + 0.08"
    using e Suc.prems(2) by (simp add: field_simps)
  with animateBomb_phase [OF pos lt2] e show ?case by (simp add: field_simps)
qed

lemma wrap_bounce_terminates:
  assumes "0 < bs_wrapBouncePhase s" and "bs_wrapBouncePhase s < 2"
  shows "\<exists>n. 0 < n \<and> n \<le> 25 \<and> wrapIdle ((animateBomb ^^ n) s)"
proof -
  let ?p = "bs_wrapBouncePhase s"
  let ?Q = "\<lambda>n. 2 \<le> ?p + 0.08 * real n"
  have q25: "?Q 25" using assms(1) by simp
  define n where "n = (LEAST n. ?Q n)"
  have qn: "?Q n" unfolding n_def using q25 by (rule LeastI)
  have le: "n \<le> 25" unfolding n_def using q25 by (rule Least_le)
  have n0: "0 < n"
  proof (rule ccontr)
    assume "\<not> 0 < n"
    then have "n = 0" by simp
    with qn assms(2) show False by simp
  qed
  then obtain m where m: "n = Suc m" by (cases n) auto
  have "\<not> ?Q m"
  proof
    assume "?Q m"
    then have "n \<le> m" unfolding n_def by (rule Least_le)
    with m show False by simp
  qed
  then have lt: "?p + 0.08 * real m < 2" by simp
  from phase_progress [OF assms(1) lt]
  have e: "bs_wrapBouncePhase ((animateBomb ^^ m) s) = ?p + 0.08 * real m" .
  have pos: "0 < bs_wrapBouncePhase ((animateBomb ^^ m) s)" using e assms(1) by simp
  have lt2: "bs_wrapBouncePhase ((animateBomb ^^ m) s) < 2" using e lt by simp
  have ge: "2 \<le> bs_wrapBouncePhase ((animateBomb ^^ m) s) + 0.08"
    using e qn m by (simp add: field_simps)
  from animateBomb_completes [OF pos lt2 ge] have "wrapIdle ((animateBomb ^^ n) s)"
    by (simp add: m)
  with n0 le show ?thesis by blast
qed

lemma updateBombSprite_mid_bounce:
  "bs_wrapBouncePhase s \<noteq> 0 \<Longrightarrow>
   bs_wrapBouncePhase (updateBombSprite d s) = bs_wrapBouncePhase s
   \<and> bs_wrapBounceDir (updateBombSprite d s) = bs_wrapBounceDir s
   \<and> bs_scaleX (updateBombSprite d s) = bs_scaleX s
   \<and> bs_scaleY (updateBombSprite d s) = bs_scaleY s"
  by (simp add: updateBombSprite_def Let_def)

lemma bombTriggered_phase: "bs_wrapBouncePhase bombTriggered = 0.01"
  "bs_wrapBounceDir bombTriggered = Some AxisX"
  by (simp_all add: bombTriggered_def updateBombSprite_def Let_def newBombSprite_def
      bombFar_def bombA_def gridToPixel_def TILE_SIZE_def)

subsection \<open>Key events in a playing game\<close>

lemma gamePlaying_facts:
  "lobbyStateIs PHASE_PLAYING gamePlaying" "callbacks gamePlaying" "keysHeld gamePlaying = []"
  "sent gamePlaying = []" "lastMoveTime gamePlaying = 0"
  by (simp_all add: gamePlaying_def gameA_def newGame_def lobbyStateIs_def lobbyB_def)

lemma handleKeyDown_held_arrow:
  assumes "lobbyStateIs PHASE_PLAYING g" and "callbacks g"
    and "set_add ''ArrowUp'' (keysHeld g) = [''ArrowUp'']"
  shows "handleKeyDown now arrowUp g
     = g\<lparr>keysHeld := [''ArrowUp''], sent := sent g @ [Move DIRECTION_UP], lastMoveTime := now\<rparr>"
proof -
  let ?g1 = "g\<lparr>keysHeld := [''ArrowUp'']\<rparr>"
  have p: "lobbyStateIs PHASE_PLAYING ?g1" using assms(1) by (simp add: lobbyStateIs_def)
  have c: "code arrowUp = ''ArrowUp''" by (simp add: arrowUp_def)
  show ?thesis
    using p assms(2,3)
    by (simp add: handleKeyDown_def Let_def c dispatchMove_def)
qed

text \<open>The repeat path of the frame tick does consult the throttle.\<close>

lemma processHeldKeys_throttled:
  "now - lastMoveTime g < moveRepeatDelay \<Longrightarrow> processHeldKeys now g = g"
  by (simp add: processHeldKeys_def)

subsection \<open>The shake intensity is never negative\<close>

text \<open>From a new game on, no snapshot, frame or key event makes the shake intensity
  negative.\<close>

lemma shake_nonneg_trigger:
  "0 \<le> shakeIntensity g \<Longrightarrow> 0 \<le> shakeIntensity (triggerExplosionShake x y g)"
  by (simp add: triggerExplosionShake_def Let_def max_def split: option.splits)

lemma shake_nonneg_syncExplosions:
  assumes "0 \<le> shakeIntensity g"
  shows "0 \<le> shakeIntensity (syncExplosions now es g)"
proof -
  have a: "shakeIntensity (fold (\<lambda>i h. if i \<notin> A then removeExplosion i h else h) ks h0)
             = shakeIntensity h0" for A ks h0
    by (induction ks arbitrary: h0) (simp_all add: removeExplosion_def split: option.splits)
  have b: "0 \<le> shakeIntensity h0 \<Longrightarrow>
      0 \<le> shakeIntensity (fold (\<lambda>explosion h. if \<not> has (explosionSprites h) (e_id explosion)
                               then addExplosion now explosion h else h) xs h0)" for xs h0
  proof (induction xs arbitrary: h0)
    case Nil
    then show ?case by simp
  next
    case (Cons e xs)
    have "0 \<le> shakeIntensity (addExplosion now e h0)"
      using Cons.prems by (simp add: addExplosion_def Let_def shake_nonneg_trigger)
    with Cons show ?case by simp
  qed
  show ?thesis using assms by (simp add: syncExplosions_def Let_def a b)
qed

lemma shake_syncPlayers: "shakeIntensity (syncPlayers now ps g) = shakeIntensity g"
proof -
  have a: "shakeIntensity (fold (\<lambda>i h. if i \<notin> A then removePlayer i h else h) ks h0)
             = shakeIntensity h0" for A ks h0
    by (induction ks arbitrary: h0) (simp_all add: removePlayer_def split: option.splits)
  have b: "shakeIntensity (fold (\<lambda>player h. if has (playerSprites h) (socketId player)
                            then updatePlayer now player h else addPlayer player h) xs h0)
             = shakeIntensity h0" for xs h0
    by (induction xs arbitrary: h0)
      (simp_all add: updatePlayer_def addPlayer_def split: option.splits)
  show ?thesis by (simp add: syncPlayers_def Let_def a b)
qed

lemma shake_syncBombs: "shakeIntensity (syncBombs bs g) = shakeIntensity g"
proof -
  have a: "shakeIntensity (fold (\<lambda>i h. if i \<notin> A then removeBomb i h else h) ks h0)
             = shakeIntensity h0" for A ks h0
    by (induction ks arbitrary: h0) (simp_all add: removeBomb_def split: option.splits)
  have b: "shakeIntensity (fold (\<lambda>bomb h. if has (bombSprites h) (b_id bomb)
                          then updateBomb bomb h else addBomb bomb h) xs h0)
             = shakeIntensity h0" for xs h0
    by (induction xs arbitrary: h0) (simp_all add: updateBomb_def addBomb_def split: option.splits)
  show ?thesis by (simp add: syncBombs_def Let_def a b)
qed

lemma shake_nonneg_updateFromLobby:
  "0 \<le> shakeIntensity g \<Longrightarrow> 0 \<le> shakeIntensity (updateFromLobby now lobby g)"
  by (simp add: updateFromLobby_def Let_def shake_syncPlayers shake_syncBombs
      shake_nonneg_syncExplosions split: option.splits)

lemma shake_nonneg_applyShake:
  "0 \<le> shakeIntensity g \<Longrightarrow> 0 \<le> shakeIntensity (applyShake r1 r2 g)"
  by (simp add: applyShake_def Let_def shakeDecay_def)

lemma shake_nonneg_update:
  "0 \<le> shakeIntensity g \<Longrightarrow> 0 \<le> shakeIntensity (update env g)"
proof -
  assume a: "0 \<le> shakeIntensity g"
  have p: "shakeIntensity (processHeldKeys now h) = shakeIntensity h" for now h
    by (simp add: processHeldKeys_def Let_def dispatchMove_def split: option.splits)
  have c: "shakeIntensity (updateCamera inner h) = shakeIntensity h" for inner h
    by (simp add: updateCamera_def Let_def)
  show ?thesis
    unfolding update_def Let_def
    by (rule shake_nonneg_applyShake) (simp add: c p a)
qed

lemma shake_nonneg_step:
  "0 \<le> shakeIntensity g \<Longrightarrow> 0 \<le> shakeIntensity (step ev g)"
proof (cases ev)
  case (Snapshot now lobby)
  assume "0 \<le> shakeIntensity g"
  with Snapshot show ?thesis by (simp add: shake_nonneg_updateFromLobby)
next
  case (Frame env)
  assume "0 \<le> shakeIntensity g"
  with Frame show ?thesis by (simp add: shake_nonneg_update)
next
  case (KeyDown now kev)
  assume "0 \<le> shakeIntensity g"
  with KeyDown show ?thesis
    by (simp add: handleKeyDown_def Let_def dispatchMove_def split: option.splits)
next
  case (KeyUp kev)
  assume "0 \<le> shakeIntensity g"
  with KeyUp show ?thesis by (simp add: handleKeyUp_def)
qed

lemma shake_nonneg_run: "0 \<le> shakeIntensity (run evs (newGame sz))"
proof -
  have "0 \<le> shakeIntensity g \<Longrightarrow> 0 \<le> shakeIntensity (fold step evs g)" for g
    by (induction evs arbitrary: g) (simp_all add: shake_nonneg_step)
  then show ?thesis by (simp add: run_def newGame_def)
qed

subsection \<open>C1: reconciliation completeness\<close>

text \<open>
  C1.  For every snapshot passed to \<^verbatim>\<open>updateFromLobby\<close> after initialization, with
  its bomb and explosion lists present: once reconciliation returns, the ids of the
  player sprite map are exactly the socket ids of the snapshot's player list, the ids
  of the bomb sprite map are exactly the ids of its bomb list, and the ids of the
  explosion sprite map are exactly the ids of its explosion list.
\<close>

theorem reconciliation_completeness:
  assumes "initialized g"
    and "l_gameData lobby = Some gd"
    and "gd_bombs gd = Some bs"
    and "gd_explosions gd = Some es"
  shows "fst ` set (playerSprites (updateFromLobby now lobby g)) = socketId ` set (l_players lobby)
       \<and> fst ` set (bombSprites (updateFromLobby now lobby g)) = b_id ` set bs
       \<and> fst ` set (explosionSprites (updateFromLobby now lobby g)) = e_id ` set es"
  using assms
  by (simp add: updateFromLobby_def Let_def keys_syncPlayers keys_syncBombs keys_syncExplosions
      playerSprites_syncBombs others_syncExplosions split: option.splits)

theorem reconciliation_completeness_witness:
  "initialized gameA \<and> l_gameData lobbyB = Some gameDataB
   \<and> gd_bombs gameDataB = Some [] \<and> gd_explosions gameDataB = Some [blastB]
   \<and> fst ` set (playerSprites gameA) = {''a1'', ''b2''}
   \<and> fst ` set (bombSprites gameA) = {''bomb-1''}
   \<and> fst ` set (explosionSprites gameA) = {''ex-1''}
   \<and> fst ` set (playerSprites (updateFromLobby 1100 lobbyB gameA)) = {''a1''}
   \<and> fst ` set (bombSprites (updateFromLobby 1100 lobbyB gameA)) = {}
   \<and> fst ` set (explosionSprites (updateFromLobby 1100 lobbyB gameA)) = {''ex-2''}"
proof -
  have h1: "initialized gameA" by (simp add: gameA_def newGame_def)
  have h2: "l_gameData lobbyB = Some gameDataB" by (simp add: lobbyB_def)
  have h3: "gd_bombs gameDataB = Some []" by (simp add: gameDataB_def)
  have h4: "gd_explosions gameDataB = Some [blastB]" by (simp add: gameDataB_def)
  have before: "fst ` set (playerSprites gameA) = {''a1'', ''b2''}
    \<and> fst ` set (bombSprites gameA) = {''bomb-1''}
    \<and> fst ` set (explosionSprites gameA) = {''ex-1''}"
    by (simp add: gameA_def newGame_def)
  have ids: "socketId ` set (l_players lobbyB) = {''a1''}" "e_id ` set [blastB] = {''ex-2''}"
    by (simp_all add: lobbyB_def alice_def blastB_def)
  from reconciliation_completeness [OF h1 h2 h3 h4, of 1100] ids before h1 h2 h3 h4
  show ?thesis by simp
qed

subsection \<open>C10: first-appearance placement\<close>

text \<open>
  C10.  When a player or bomb id appears for the first time in a snapshot (no sprite
  is owned for it, and the ids of the list are unique), the sprite that reconciliation
  creates is rendered at exactly the mapped authoritative position
  \<open>(gridX * TILE_SIZE + TILE_SIZE / 2, gridY * TILE_SIZE + TILE_SIZE / 2)\<close>, which is
  \<^verbatim>\<open>gridToPixel(gridX, gridY)\<close>, and its interpolation target is the same point.
\<close>

theorem first_appearance_placement:
  assumes "initialized g"
  shows "(p \<in> set (l_players lobby) \<and> distinct (map socketId (l_players lobby))
          \<and> map_of (playerSprites g) (socketId p) = None \<longrightarrow>
          (\<exists>sp. map_of (playerSprites (updateFromLobby now lobby g)) (socketId p) = Some sp
             \<and> ps_x sp = p_gridX p * TILE_SIZE + TILE_SIZE / 2
             \<and> ps_y sp = p_gridY p * TILE_SIZE + TILE_SIZE / 2
             \<and> (ps_x sp, ps_y sp) = gridToPixel (p_gridX p) (p_gridY p)
             \<and> (ps_targetX sp, ps_targetY sp) = (ps_x sp, ps_y sp)))
       \<and> (l_gameData lobby = Some gd \<and> gd_bombs gd = Some bs
          \<and> b \<in> set bs \<and> distinct (map b_id bs)
          \<and> map_of (bombSprites g) (b_id b) = None \<longrightarrow>
          (\<exists>sp. map_of (bombSprites (updateFromLobby now lobby g)) (b_id b) = Some sp
             \<and> bs_x sp = b_gridX b * TILE_SIZE + TILE_SIZE / 2
             \<and> bs_y sp = b_gridY b * TILE_SIZE + TILE_SIZE / 2
             \<and> (bs_x sp, bs_y sp) = gridToPixel (b_gridX b) (b_gridY b)
             \<and> (bs_targetX sp, bs_targetY sp) = (bs_x sp, bs_y sp)))"
proof (intro conjI impI)
  assume a: "p \<in> set (l_players lobby) \<and> distinct (map socketId (l_players lobby))
          \<and> map_of (playerSprites g) (socketId p) = None"
  then have f: "filter (\<lambda>q. socketId q = socketId p) (l_players lobby) = [p]"
    by (simp add: filter_distinct_key)
  from a have n: "map_of (playerSprites g) (socketId p) = None" by simp
  have "map_of (playerSprites (updateFromLobby now lobby g)) (socketId p) = Some (newPlayerSprite p)"
    using entry_updateFromLobby_player_new [OF assms n, of now lobby] f by simp
  then show "\<exists>sp. map_of (playerSprites (updateFromLobby now lobby g)) (socketId p) = Some sp
             \<and> ps_x sp = p_gridX p * TILE_SIZE + TILE_SIZE / 2
             \<and> ps_y sp = p_gridY p * TILE_SIZE + TILE_SIZE / 2
             \<and> (ps_x sp, ps_y sp) = gridToPixel (p_gridX p) (p_gridY p)
             \<and> (ps_targetX sp, ps_targetY sp) = (ps_x sp, ps_y sp)"
    by (simp add: newPlayerSprite_def Let_def gridToPixel_def)
next
  assume a: "l_gameData lobby = Some gd \<and> gd_bombs gd = Some bs
          \<and> b \<in> set bs \<and> distinct (map b_id bs)
          \<and> map_of (bombSprites g) (b_id b) = None"
  then have f: "filter (\<lambda>q. b_id q = b_id b) bs = [b]"
    by (simp add: filter_distinct_key)
  from a have h: "l_gameData lobby = Some gd" "gd_bombs gd = Some bs"
    "map_of (bombSprites g) (b_id b) = None" by simp_all
  have "map_of (bombSprites (updateFromLobby now lobby g)) (b_id b) = Some (newBombSprite b)"
    using entry_updateFromLobby_bomb_new [OF assms h, of now] f by simp
  then show "\<exists>sp. map_of (bombSprites (updateFromLobby now lobby g)) (b_id b) = Some sp
             \<and> bs_x sp = b_gridX b * TILE_SIZE + TILE_SIZE / 2
             \<and> bs_y sp = b_gridY b * TILE_SIZE + TILE_SIZE / 2
             \<and> (bs_x sp, bs_y sp) = gridToPixel (b_gridX b) (b_gridY b)
             \<and> (bs_targetX sp, bs_targetY sp) = (bs_x sp, bs_y sp)"
    by (simp add: newBombSprite_def Let_def gridToPixel_def)
qed

theorem first_appearance_placement_witness:
  "initialized gameA
   \<and> carol \<in> set (l_players lobbyC) \<and> distinct (map socketId (l_players lobbyC))
   \<and> map_of (playerSprites gameA) (socketId carol) = None
   \<and> l_gameData lobbyC = Some gameDataC \<and> gd_bombs gameDataC = Some [bombA, bombB]
   \<and> bombB \<in> set [bombA, bombB] \<and> distinct (map b_id [bombA, bombB])
   \<and> map_of (bombSprites gameA) (b_id bombB) = None
   \<and> (\<exists>sp. map_of (playerSprites (updateFromLobby 1100 lobbyC gameA)) ''c3'' = Some sp
         \<and> ps_x sp = 220 \<and> ps_y sp = 100 \<and> ps_targetX sp = 220 \<and> ps_targetY sp = 100)
   \<and> (\<exists>sp. map_of (bombSprites (updateFromLobby 1100 lobbyC gameA)) ''bomb-2'' = Some sp
         \<and> bs_x sp = 180 \<and> bs_y sp = 300 \<and> bs_targetX sp = 180 \<and> bs_targetY sp = 300)"
proof -
  have h1: "initialized gameA" by (simp add: gameA_def newGame_def)
  have h2: "carol \<in> set (l_players lobbyC) \<and> distinct (map socketId (l_players lobbyC))
     \<and> map_of (playerSprites gameA) (socketId carol) = None"
    by (simp add: lobbyC_def alice_def carol_def gameA_def newGame_def)
  have h3: "l_gameData lobbyC = Some gameDataC \<and> gd_bombs gameDataC = Some [bombA, bombB]
     \<and> bombB \<in> set [bombA, bombB] \<and> distinct (map b_id [bombA, bombB])
     \<and> map_of (bombSprites gameA) (b_id bombB) = None"
    by (simp add: lobbyC_def gameDataC_def bombA_def bombB_def gameA_def newGame_def)
  have v: "socketId carol = ''c3''" "p_gridX carol * TILE_SIZE + TILE_SIZE / 2 = 220"
    "p_gridY carol * TILE_SIZE + TILE_SIZE / 2 = 100"
    "b_id bombB = ''bomb-2''" "b_gridX bombB * TILE_SIZE + TILE_SIZE / 2 = 180"
    "b_gridY bombB * TILE_SIZE + TILE_SIZE / 2 = 300"
    by (simp_all add: carol_def bombB_def TILE_SIZE_def)
  from first_appearance_placement [OF h1, where p = carol and lobby = lobbyC and gd = gameDataC
      and bs = "[bombA, bombB]" and b = bombB and now = 1100]
    h2 h3
  have "(\<exists>sp. map_of (playerSprites (updateFromLobby 1100 lobbyC gameA)) (socketId carol) = Some sp
         \<and> ps_x sp = p_gridX carol * TILE_SIZE + TILE_SIZE / 2
         \<and> ps_y sp = p_gridY carol * TILE_SIZE + TILE_SIZE / 2
         \<and> (ps_targetX sp, ps_targetY sp) = (ps_x sp, ps_y sp))
    \<and> (\<exists>sp. map_of (bombSprites (updateFromLobby 1100 lobbyC gameA)) (b_id bombB) = Some sp
         \<and> bs_x sp = b_gridX bombB * TILE_SIZE + TILE_SIZE / 2
         \<and> bs_y sp = b_gridY bombB * TILE_SIZE + TILE_SIZE / 2
         \<and> (bs_targetX sp, bs_targetY sp) = (bs_x sp, bs_y sp))"
    by blast
  then have "(\<exists>sp. map_of (playerSprites (updateFromLobby 1100 lobbyC gameA)) ''c3'' = Some sp
         \<and> ps_x sp = 220 \<and> ps_y sp = 100 \<and> ps_targetX sp = 220 \<and> ps_targetY sp = 100)
   \<and> (\<exists>sp. map_of (bombSprites (updateFromLobby 1100 lobbyC gameA)) ''bomb-2'' = Some sp
         \<and> bs_x sp = 180 \<and> bs_y sp = 300 \<and> bs_targetX sp = 180 \<and> bs_targetY sp = 300)"
    unfolding v by auto
  with h1 h2 h3 show ?thesis by blast
qed

subsection \<open>C2: what reconciliation does to an id it already knows\<close>

text \<open>
  C2 says that an explosion item whose id already has a sprite gets its authoritative
  fields (grid coordinates, timer) updated and its interpolation target recomputed,
  as players and bombs do.  \<^verbatim>\<open>syncExplosions\<close> has no update branch: in the running
  game \<open>gameA\<close> the explosion \<open>ex-1\<close> was created at cell \<open>(3, 1)\<close>; the snapshot
  \<open>lobbyD\<close> reports \<open>ex-1\<close> at cell \<open>(4, 1)\<close>, and after reconciliation the sprite
  still holds cell \<open>(3, 1)\<close>, the pixel position of that cell and its creation time.
\<close>

theorem explosion_known_id_not_updated_counterexample:
  "initialized gameA
   \<and> l_gameData lobbyD = Some gameDataD \<and> gd_explosions gameDataD = Some [blastMoved]
   \<and> has (explosionSprites gameA) (e_id blastMoved)
   \<and> e_gridX blastMoved = 4
   \<and> map_of (explosionSprites (updateFromLobby 1100 lobbyD gameA)) (e_id blastMoved)
       = Some \<lparr> es_x = 140, es_y = 60, es_createdAt = 1000, es_gridX = 3, es_gridY = 1 \<rparr>"
proof -
  have x: "e_id blastMoved \<in> e_id ` set [blastMoved]" by simp
  have n: "newExplosionSprite 1000 blastA
     = \<lparr> es_x = 140, es_y = 60, es_createdAt = 1000, es_gridX = 3, es_gridY = 1 \<rparr>"
    by (simp add: newExplosionSprite_def blastA_def gridToPixel_def TILE_SIZE_def Let_def)
  have k: "map_of (explosionSprites gameA) (e_id blastMoved) = Some (newExplosionSprite 1000 blastA)"
    by (simp add: gameA_facts lobbyD_facts)
  from entry_updateFromLobby_explosion_existing
    [OF gameA_facts(1) lobbyD_facts(2) lobbyD_facts(4) k x, of 1100]
  show ?thesis
    by (simp add: gameA_facts lobbyD_facts has_def n) (simp add: blastMoved_def)
qed

text \<open>
  C2, amended.  For an item of the snapshot whose id already has a sprite (ids unique
  in the list): a player sprite and a bomb sprite take the item as their data and the
  mapped position of the item as their interpolation target; an explosion sprite is
  left exactly as it was.
\<close>

theorem known_ids_players_bombs_updated_explosions_kept:
  assumes "initialized g"
  shows "(p \<in> set (l_players lobby) \<and> distinct (map socketId (l_players lobby))
          \<and> map_of (playerSprites g) (socketId p) = Some psp \<longrightarrow>
          (\<exists>sp. map_of (playerSprites (updateFromLobby now lobby g)) (socketId p) = Some sp
             \<and> ps_data sp = p
             \<and> (ps_targetX sp, ps_targetY sp) = gridToPixel (p_gridX p) (p_gridY p)))
       \<and> (l_gameData lobby = Some gd \<and> gd_bombs gd = Some bs
          \<and> b \<in> set bs \<and> distinct (map b_id bs)
          \<and> map_of (bombSprites g) (b_id b) = Some bsp \<longrightarrow>
          (\<exists>sp. map_of (bombSprites (updateFromLobby now lobby g)) (b_id b) = Some sp
             \<and> bs_data sp = b
             \<and> (bs_targetX sp, bs_targetY sp) = gridToPixel (b_gridX b) (b_gridY b)))
       \<and> (l_gameData lobby = Some gd \<and> gd_explosions gd = Some es
          \<and> e \<in> set es
          \<and> map_of (explosionSprites g) (e_id e) = Some esp \<longrightarrow>
          map_of (explosionSprites (updateFromLobby now lobby g)) (e_id e) = Some esp)"
proof (intro conjI impI)
  assume a: "p \<in> set (l_players lobby) \<and> distinct (map socketId (l_players lobby))
          \<and> map_of (playerSprites g) (socketId p) = Some psp"
  then have f: "filter (\<lambda>q. socketId q = socketId p) (l_players lobby) = [p]"
    by (simp add: filter_distinct_key)
  from a have h: "map_of (playerSprites g) (socketId p) = Some psp"
    "socketId p \<in> socketId ` set (l_players lobby)" by simp_all
  from entry_updateFromLobby_player_existing [OF assms h, of now] f
  show "\<exists>sp. map_of (playerSprites (updateFromLobby now lobby g)) (socketId p) = Some sp
             \<and> ps_data sp = p
             \<and> (ps_targetX sp, ps_targetY sp) = gridToPixel (p_gridX p) (p_gridY p)"
    by (simp add: updatePlayerSprite_fields)
next
  assume a: "l_gameData lobby = Some gd \<and> gd_bombs gd = Some bs
          \<and> b \<in> set bs \<and> distinct (map b_id bs)
          \<and> map_of (bombSprites g) (b_id b) = Some bsp"
  then have f: "filter (\<lambda>q. b_id q = b_id b) bs = [b]"
    by (simp add: filter_distinct_key)
  from a have h: "l_gameData lobby = Some gd" "gd_bombs gd = Some bs"
    "map_of (bombSprites g) (b_id b) = Some bsp" "b_id b \<in> b_id ` set bs" by simp_all
  from entry_updateFromLobby_bomb_existing [OF assms h, of now] f
  show "\<exists>sp. map_of (bombSprites (updateFromLobby now lobby g)) (b_id b) = Some sp
             \<and> bs_data sp = b
             \<and> (bs_targetX sp, bs_targetY sp) = gridToPixel (b_gridX b) (b_gridY b)"
    by (simp add: updateBombSprite_fields)
next
  assume a: "l_gameData lobby = Some gd \<and> gd_explosions gd = Some es
          \<and> e \<in> set es
          \<and> map_of (explosionSprites g) (e_id e) = Some esp"
  then have h: "l_gameData lobby = Some gd" "gd_explosions gd = Some es"
    "map_of (explosionSprites g) (e_id e) = Some esp" "e_id e \<in> e_id ` set es" by simp_all
  from entry_updateFromLobby_explosion_existing [OF assms h, of now]
  show "map_of (explosionSprites (updateFromLobby now lobby g)) (e_id e) = Some esp" .
qed

theorem known_ids_witness:
  "initialized gameA
   \<and> aliceMoved \<in> set (l_players lobbyD) \<and> distinct (map socketId (l_players lobbyD))
   \<and> map_of (playerSprites gameA) (socketId aliceMoved) = Some (newPlayerSprite alice)
   \<and> l_gameData lobbyD = Some gameDataD \<and> gd_bombs gameDataD = Some [bombMoved]
   \<and> bombMoved \<in> set [bombMoved] \<and> distinct (map b_id [bombMoved])
   \<and> map_of (bombSprites gameA) (b_id bombMoved) = Some (newBombSprite bombA)
   \<and> gd_explosions gameDataD = Some [blastMoved] \<and> blastMoved \<in> set [blastMoved]
   \<and> map_of (explosionSprites gameA) (e_id blastMoved) = Some (newExplosionSprite 1000 blastA)
   \<and> (\<exists>sp. map_of (playerSprites (updateFromLobby 1100 lobbyD gameA)) ''a1'' = Some sp
          \<and> ps_data sp = aliceMoved \<and> (ps_targetX sp, ps_targetY sp) = (100, 60))
   \<and> (\<exists>sp. map_of (bombSprites (updateFromLobby 1100 lobbyD gameA)) ''bomb-1'' = Some sp
          \<and> bs_data sp = bombMoved \<and> (bs_targetX sp, bs_targetY sp) = (60, 140))
   \<and> map_of (explosionSprites (updateFromLobby 1100 lobbyD gameA)) ''ex-1''
        = Some (newExplosionSprite 1000 blastA)"
proof -
  have h2: "aliceMoved \<in> set (l_players lobbyD) \<and> distinct (map socketId (l_players lobbyD))
     \<and> map_of (playerSprites gameA) (socketId aliceMoved) = Some (newPlayerSprite alice)"
    by (simp add: lobbyD_facts gameA_facts)
  have h3: "l_gameData lobbyD = Some gameDataD \<and> gd_bombs gameDataD = Some [bombMoved]
     \<and> bombMoved \<in> set [bombMoved] \<and> distinct (map b_id [bombMoved])
     \<and> map_of (bombSprites gameA) (b_id bombMoved) = Some (newBombSprite bombA)"
    by (simp add: lobbyD_facts gameA_facts)
  have h4: "l_gameData lobbyD = Some gameDataD \<and> gd_explosions gameDataD = Some [blastMoved]
     \<and> blastMoved \<in> set [blastMoved]
     \<and> map_of (explosionSprites gameA) (e_id blastMoved) = Some (newExplosionSprite 1000 blastA)"
    by (simp add: lobbyD_facts gameA_facts)
  have v: "gridToPixel (p_gridX aliceMoved) (p_gridY aliceMoved) = (100, 60)"
    "gridToPixel (b_gridX bombMoved) (b_gridY bombMoved) = (60, 140)"
    by (simp_all add: gridToPixel_def TILE_SIZE_def aliceMoved_def alice_def bombMoved_def bombA_def)
  from known_ids_players_bombs_updated_explosions_kept [OF gameA_facts(1),
      where p = aliceMoved and lobby = lobbyD and psp = "newPlayerSprite alice"
        and gd = gameDataD and bs = "[bombMoved]" and b = bombMoved
        and bsp = "newBombSprite bombA" and es = "[blastMoved]" and e = blastMoved
        and esp = "newExplosionSprite 1000 blastA" and now = 1100]
    h2 h3 h4
  have "(\<exists>sp. map_of (playerSprites (updateFromLobby 1100 lobbyD gameA)) (socketId aliceMoved) = Some sp
          \<and> ps_data sp = aliceMoved
          \<and> (ps_targetX sp, ps_targetY sp) = gridToPixel (p_gridX aliceMoved) (p_gridY aliceMoved))
   \<and> (\<exists>sp. map_of (bombSprites (updateFromLobby 1100 lobbyD gameA)) (b_id bombMoved) = Some sp
          \<and> bs_data sp = bombMoved
          \<and> (bs_targetX sp, bs_targetY sp) = gridToPixel (b_gridX bombMoved) (b_gridY bombMoved))
   \<and> map_of (explosionSprites (updateFromLobby 1100 lobbyD gameA)) (e_id blastMoved)
        = Some (newExplosionSprite 1000 blastA)"
    by blast
  then have "(\<exists>sp. map_of (playerSprites (updateFromLobby 1100 lobbyD gameA)) ''a1'' = Some sp
          \<and> ps_data sp = aliceMoved \<and> (ps_targetX sp, ps_targetY sp) = (100, 60))
   \<and> (\<exists>sp. map_of (bombSprites (updateFromLobby 1100 lobbyD gameA)) ''bomb-1'' = Some sp
          \<and> bs_data sp = bombMoved \<and> (bs_targetX sp, bs_targetY sp) = (60, 140))
   \<and> map_of (explosionSprites (updateFromLobby 1100 lobbyD gameA)) ''ex-1''
        = Some (newExplosionSprite 1000 blastA)"
    unfolding v lobbyD_facts by simp
  with gameA_facts(1) h2 h3 h4 show ?thesis by blast
qed

subsection \<open>C9: the death timestamp is recorded once\<close>

text \<open>
  C9.  If a reconciliation at time \<open>t0\<close> observes \<^verbatim>\<open>alive = false\<close> for a player
  whose sprite held \<^verbatim>\<open>alive = true\<close>, the death-start timestamp becomes \<open>t0\<close>; after
  any number of further events (frames, key events, and snapshots that all still report
  the player dead) the sprite exists and its death-start timestamp is still \<open>t0\<close>.
\<close>

theorem death_timestamp_idempotent:
  assumes "initialized g"
    and "map_of (playerSprites g) i = Some sp" and "p_alive (ps_data sp)"
    and "observesDead i lobby"
    and "\<forall>ev \<in> set evs. carriesDead i ev"
  shows "\<exists>sp'. map_of (playerSprites (run evs (updateFromLobby t0 lobby g))) i = Some sp'
           \<and> ps_deathTime sp' = t0 \<and> \<not> p_alive (ps_data sp')"
proof -
  from assms(4) have m: "i \<in> socketId ` set (l_players lobby)"
    and d: "\<forall>d \<in> set (filter (\<lambda>p. socketId p = i) (l_players lobby)). \<not> p_alive d"
    and ne: "filter (\<lambda>p. socketId p = i) (l_players lobby) \<noteq> []"
    by (auto simp: observesDead_def filter_empty_conv)
  from entry_updateFromLobby_player_existing [OF assms(1,2) m, of t0]
    fold_updatePlayerSprite_dies [OF d ne assms(3), of t0 "globalTime g"]
  have "reportedDead i t0 (updateFromLobby t0 lobby g)"
    by (simp add: reportedDead_def)
  from reportedDead_run [OF this assms(5)] show ?thesis
    by (auto simp: reportedDead_def split: option.splits)
qed

theorem death_timestamp_idempotent_witness:
  "initialized gameA
   \<and> map_of (playerSprites gameA) ''a1'' = Some (newPlayerSprite alice)
   \<and> p_alive (ps_data (newPlayerSprite alice))
   \<and> observesDead ''a1'' lobbyE
   \<and> list_all (carriesDead ''a1'') eventsE
   \<and> (\<exists>sp'. map_of (playerSprites (run eventsE (updateFromLobby 2000 lobbyE gameA))) ''a1''
                = Some sp'
           \<and> ps_deathTime sp' = 2000 \<and> \<not> p_alive (ps_data sp'))"
proof -
  have h3: "p_alive (ps_data (newPlayerSprite alice))"
    by (simp add: newPlayerSprite_def Let_def alice_def)
  have h4: "observesDead ''a1'' lobbyE"
    by (simp add: observesDead_def lobbyE_def aliceDead_def alice_def bob_def)
  have h5: "\<forall>ev \<in> set eventsE. carriesDead ''a1'' ev"
    by (simp add: eventsE_def observesDead_def lobbyE_def lobbyF_def aliceDead_def alice_def
        bob_def)
  from h5 have h6: "list_all (carriesDead ''a1'') eventsE" by (simp add: list_all_iff)
  from death_timestamp_idempotent [OF gameA_facts(1) gameA_facts(2) h3 h4 h5, of 2000]
    gameA_facts(1) gameA_facts(2) h3 h4 h6
  show ?thesis by blast
qed

subsection \<open>C3: tile writes outside the grid\<close>

text \<open>
  C3 says that \<^verbatim>\<open>updateTile\<close> leaves the array unchanged for every
  \<open>(gridX, gridY)\<close> outside \<open>[0, GRID_WIDTH) \<times> [0, GRID_HEIGHT)\<close>.  The guard of
  \<^verbatim>\<open>updateTile\<close> is on the flat index only: on the full grid of empty tiles the
  write at column \<open>19\<close> of row \<open>0\<close> has index \<open>19\<close>, which is in range, and it
  changes the first cell of row \<open>1\<close>.
\<close>

theorem updateTile_outside_grid_counterexample:
  "\<not> (0 \<le> (19::int) \<and> 19 < GRID_WIDTH) \<and> length emptyTiles = nat (GRID_WIDTH * GRID_HEIGHT)
   \<and> emptyTiles ! 19 = 0 \<and> updateTile 19 0 2 emptyTiles ! 19 = 2
   \<and> updateTile 19 0 2 emptyTiles \<noteq> emptyTiles"
proof -
  have a: "updateTile 19 0 2 emptyTiles = emptyTiles[19 := 2]"
    by (simp add: updateTile_def GRID_WIDTH_def emptyTiles_def)
  have b: "emptyTiles ! 19 = 0" "emptyTiles[19 := 2] ! 19 = 2" "length emptyTiles = 285"
    by (simp_all add: emptyTiles_def)
  from b have "emptyTiles[19 := 2] \<noteq> emptyTiles" by (metis zero_neq_numeral)
  with a b show ?thesis by (simp add: GRID_WIDTH_def GRID_HEIGHT_def)
qed

text \<open>
  C3, amended.  A write whose flat index \<open>gridY * GRID_WIDTH + gridX\<close> is outside
  \<open>[0, length)\<close> of the stored array is dropped and the array is unchanged; a write
  whose flat index is in range changes the cell of that index and no other cell; on
  an array of \<open>GRID_WIDTH * GRID_HEIGHT\<close> cells a write with its column in range and
  its row out of range is dropped.
\<close>

theorem updateTile_index_guard:
  "(gridY * GRID_WIDTH + gridX < 0 \<or> int (length ts) \<le> gridY * GRID_WIDTH + gridX
      \<longrightarrow> updateTile gridX gridY tileType ts = ts)
   \<and> (0 \<le> gridY * GRID_WIDTH + gridX \<and> gridY * GRID_WIDTH + gridX < int (length ts)
      \<longrightarrow> updateTile gridX gridY tileType ts = ts[nat (gridY * GRID_WIDTH + gridX) := tileType]
        \<and> (\<forall>j < length ts. j \<noteq> nat (gridY * GRID_WIDTH + gridX)
              \<longrightarrow> updateTile gridX gridY tileType ts ! j = ts ! j))
   \<and> (length ts = nat (GRID_WIDTH * GRID_HEIGHT) \<and> 0 \<le> gridX \<and> gridX < GRID_WIDTH
        \<and> (gridY < 0 \<or> GRID_HEIGHT \<le> gridY)
      \<longrightarrow> updateTile gridX gridY tileType ts = ts)"
proof (intro conjI impI)
  assume "gridY * GRID_WIDTH + gridX < 0 \<or> int (length ts) \<le> gridY * GRID_WIDTH + gridX"
  then show "updateTile gridX gridY tileType ts = ts"
    by (auto simp: updateTile_def Let_def)
next
  assume a: "0 \<le> gridY * GRID_WIDTH + gridX \<and> gridY * GRID_WIDTH + gridX < int (length ts)"
  then show "updateTile gridX gridY tileType ts = ts[nat (gridY * GRID_WIDTH + gridX) := tileType]"
    by (simp add: updateTile_def Let_def)
  from a show "\<forall>j < length ts. j \<noteq> nat (gridY * GRID_WIDTH + gridX)
              \<longrightarrow> updateTile gridX gridY tileType ts ! j = ts ! j"
    by (simp add: updateTile_def Let_def)
next
  assume a: "length ts = nat (GRID_WIDTH * GRID_HEIGHT) \<and> 0 \<le> gridX \<and> gridX < GRID_WIDTH
        \<and> (gridY < 0 \<or> GRID_HEIGHT \<le> gridY)"
  then have "gridY * 19 + gridX < 0 \<or> 285 \<le> gridY * 19 + gridX"
    by (auto simp: GRID_WIDTH_def GRID_HEIGHT_def)
  with a show "updateTile gridX gridY tileType ts = ts"
    by (auto simp: updateTile_def Let_def GRID_WIDTH_def GRID_HEIGHT_def)
qed

theorem updateTile_index_guard_witness:
  "((- 1) * GRID_WIDTH + 5 < 0 \<or> int (length emptyTiles) \<le> (- 1) * GRID_WIDTH + 5)
   \<and> updateTile 5 (- 1) 2 emptyTiles = emptyTiles
   \<and> 0 \<le> 2 * GRID_WIDTH + 3 \<and> 2 * GRID_WIDTH + 3 < int (length emptyTiles)
   \<and> updateTile 3 2 2 emptyTiles = emptyTiles[41 := 2]
   \<and> (0::nat) < length emptyTiles \<and> (0::nat) \<noteq> nat (2 * GRID_WIDTH + 3)
   \<and> updateTile 3 2 2 emptyTiles ! 0 = emptyTiles ! 0
   \<and> length emptyTiles = nat (GRID_WIDTH * GRID_HEIGHT) \<and> (0::int) \<le> 5 \<and> 5 < GRID_WIDTH
   \<and> ((15::int) < 0 \<or> GRID_HEIGHT \<le> 15)
   \<and> updateTile 5 15 2 emptyTiles = emptyTiles"
proof -
  have l: "length emptyTiles = 285" by (simp add: emptyTiles_def)
  note t1 = updateTile_index_guard [of "- 1" 5 emptyTiles 2]
  note t2 = updateTile_index_guard [of 2 3 emptyTiles 2]
  note t3 = updateTile_index_guard [of 15 5 emptyTiles 2]
  from t1 have a: "updateTile 5 (- 1) 2 emptyTiles = emptyTiles"
    by (simp add: GRID_WIDTH_def l)
  from t2 have b: "updateTile 3 2 2 emptyTiles = emptyTiles[41 := 2]"
    "updateTile 3 2 2 emptyTiles ! 0 = emptyTiles ! 0"
    by (simp_all add: GRID_WIDTH_def l)
  from t3 have c: "updateTile 5 15 2 emptyTiles = emptyTiles"
    by (simp add: GRID_WIDTH_def GRID_HEIGHT_def l)
  from a b c show ?thesis by (simp add: GRID_WIDTH_def GRID_HEIGHT_def l)
qed

subsection \<open>C5: the trigger of the wrap bounce\<close>

text \<open>
  C5.  For a bomb sprite in the idle wrap state (phase \<open>0\<close>) and an update with
  \<^verbatim>\<open>isFlying = true\<close>: if the new target differs from the stored target by more than
  5 tile widths on the x axis, the update starts the wrap bounce (phase \<open>0.01\<close>) with
  axis \<open>x\<close>; if it differs by at most 5 tile widths on both axes, as a move of one
  tile does, the update does not start it.
\<close>

theorem wrap_bounce_trigger:
  assumes "map_of (bombSprites g) (b_id d) = Some sp"
    and "bs_wrapBouncePhase sp = 0"
    and "b_isFlying d"
  shows "(\<bar>bs_targetX sp - (b_gridX d * TILE_SIZE + TILE_SIZE / 2)\<bar> > 5 * TILE_SIZE \<longrightarrow>
            (\<exists>sp'. map_of (bombSprites (updateBomb d g)) (b_id d) = Some sp'
               \<and> bs_wrapBouncePhase sp' = 0.01 \<and> bs_wrapBounceDir sp' = Some AxisX))
       \<and> (\<bar>bs_targetX sp - (b_gridX d * TILE_SIZE + TILE_SIZE / 2)\<bar> \<le> 5 * TILE_SIZE
          \<and> \<bar>bs_targetY sp - (b_gridY d * TILE_SIZE + TILE_SIZE / 2)\<bar> \<le> 5 * TILE_SIZE \<longrightarrow>
            (\<exists>sp'. map_of (bombSprites (updateBomb d g)) (b_id d) = Some sp'
               \<and> bs_wrapBouncePhase sp' = 0 \<and> bs_wrapBounceDir sp' = bs_wrapBounceDir sp))"
  using assms
  by (simp add: entry_updateBomb updateBombSprite_def Let_def gridToPixel_def mult.commute)

theorem wrap_bounce_trigger_witness:
  "map_of (bombSprites gameA) (b_id bombFar) = Some (newBombSprite bombA)
   \<and> map_of (bombSprites gameA) (b_id bombMoved) = Some (newBombSprite bombA)
   \<and> bs_wrapBouncePhase (newBombSprite bombA) = 0
   \<and> b_isFlying bombFar \<and> b_isFlying bombMoved
   \<and> b_gridX bombA = 0 \<and> b_gridX bombFar = 18 \<and> b_gridX bombMoved = 1
   \<and> \<bar>bs_targetX (newBombSprite bombA) - (b_gridX bombFar * TILE_SIZE + TILE_SIZE / 2)\<bar>
        > 5 * TILE_SIZE
   \<and> (\<exists>sp'. map_of (bombSprites (updateBomb bombFar gameA)) ''bomb-1'' = Some sp'
               \<and> bs_wrapBouncePhase sp' = 0.01 \<and> bs_wrapBounceDir sp' = Some AxisX)
   \<and> \<bar>bs_targetX (newBombSprite bombA) - (b_gridX bombMoved * TILE_SIZE + TILE_SIZE / 2)\<bar>
        \<le> 5 * TILE_SIZE
   \<and> \<bar>bs_targetY (newBombSprite bombA) - (b_gridY bombMoved * TILE_SIZE + TILE_SIZE / 2)\<bar>
        \<le> 5 * TILE_SIZE
   \<and> (\<exists>sp'. map_of (bombSprites (updateBomb bombMoved gameA)) ''bomb-1'' = Some sp'
               \<and> bs_wrapBouncePhase sp' = 0 \<and> bs_wrapBounceDir sp' = None)"
proof -
  have ids: "b_id bombFar = ''bomb-1''" "b_id bombMoved = ''bomb-1''"
    and fl: "b_isFlying bombFar" "b_isFlying bombMoved"
    and xs: "b_gridX bombA = 0" "b_gridX bombFar = 18" "b_gridX bombMoved = 1"
      "b_gridY bombFar = 3" "b_gridY bombMoved = 3"
    by (simp_all add: bombFar_def bombMoved_def bombA_def)
  have k1: "map_of (bombSprites gameA) (b_id bombFar) = Some (newBombSprite bombA)"
    and k2: "map_of (bombSprites gameA) (b_id bombMoved) = Some (newBombSprite bombA)"
    by (simp_all add: ids gameA_facts)
  have far: "\<bar>bs_targetX (newBombSprite bombA) - (b_gridX bombFar * TILE_SIZE + TILE_SIZE / 2)\<bar>
        > 5 * TILE_SIZE"
    by (simp add: newBombSprite_bombA xs TILE_SIZE_def)
  have near: "\<bar>bs_targetX (newBombSprite bombA) - (b_gridX bombMoved * TILE_SIZE + TILE_SIZE / 2)\<bar>
        \<le> 5 * TILE_SIZE"
    "\<bar>bs_targetY (newBombSprite bombA) - (b_gridY bombMoved * TILE_SIZE + TILE_SIZE / 2)\<bar>
        \<le> 5 * TILE_SIZE"
    by (simp_all add: newBombSprite_bombA xs TILE_SIZE_def)
  from wrap_bounce_trigger [OF k1 newBombSprite_bombA(1) fl(1)] far
  have r1: "\<exists>sp'. map_of (bombSprites (updateBomb bombFar gameA)) ''bomb-1'' = Some sp'
               \<and> bs_wrapBouncePhase sp' = 0.01 \<and> bs_wrapBounceDir sp' = Some AxisX"
    by (simp add: ids)
  from wrap_bounce_trigger [OF k2 newBombSprite_bombA(1) fl(2)] near
  have r2: "\<exists>sp'. map_of (bombSprites (updateBomb bombMoved gameA)) ''bomb-1'' = Some sp'
               \<and> bs_wrapBouncePhase sp' = 0 \<and> bs_wrapBounceDir sp' = None"
    by (simp add: ids newBombSprite_bombA)
  from k1 k2 newBombSprite_bombA(1) fl xs far near r1 r2 show ?thesis by blast
qed

subsection \<open>C7: the camera target\<close>

text \<open>
  C7.  On each axis independently: if the world fits in the viewport, the horizontal
  target centres the world and the vertical target is \<open>0\<close> (top edge); otherwise the
  target is the local player's eased position, centred and clamped to
  \<open>[- (worldSize - viewportSize), 0]\<close>, so it is within these bounds for every player
  position; and it is \<open>0\<close> when there is no local player sprite.
\<close>

theorem camera_target_bounds:
  "(worldWidth \<le> containerWidth inner g \<longrightarrow>
      fst (cameraTarget inner g) = (containerWidth inner g - worldWidth) / 2)
   \<and> (worldHeight \<le> containerHeight inner g \<longrightarrow> snd (cameraTarget inner g) = 0)
   \<and> (containerWidth inner g < worldWidth \<longrightarrow>
        - (worldWidth - containerWidth inner g) \<le> fst (cameraTarget inner g)
        \<and> fst (cameraTarget inner g) \<le> 0
        \<and> (case localSprite g of
              None \<Rightarrow> fst (cameraTarget inner g) = 0
            | Some sp \<Rightarrow> fst (cameraTarget inner g)
                = min 0 (max (- (worldWidth - containerWidth inner g))
                          (containerWidth inner g / 2 - ps_x sp))))
   \<and> (containerHeight inner g < worldHeight \<longrightarrow>
        - (worldHeight - containerHeight inner g) \<le> snd (cameraTarget inner g)
        \<and> snd (cameraTarget inner g) \<le> 0
        \<and> (case localSprite g of
              None \<Rightarrow> snd (cameraTarget inner g) = 0
            | Some sp \<Rightarrow> snd (cameraTarget inner g)
                = min 0 (max (- (worldHeight - containerHeight inner g))
                          (containerHeight inner g / 2 - ps_y sp))))"
  by (auto simp: cameraTarget_def Let_def split: option.splits)

theorem camera_target_bounds_witness:
  "worldWidth \<le> containerWidth (1024, 768) gameA
   \<and> worldHeight \<le> containerHeight (1024, 768) gameA
   \<and> cameraTarget (1024, 768) gameA = (20, 0)
   \<and> containerWidth (1024, 768) gameFollow < worldWidth
   \<and> containerHeight (1024, 768) gameFollow < worldHeight
   \<and> cameraTarget (1024, 768) gameFollow = (- 100, - 150)
   \<and> cameraTarget (1024, 768) gameSmall = (- 360, - 300)
   \<and> containerWidth (640, 480) gameNoLocal < worldWidth
   \<and> containerHeight (640, 480) gameNoLocal < worldHeight
   \<and> cameraTarget (640, 480) gameNoLocal = (0, 0)"
proof -
  note a = camera_target_bounds [of "(1024, 768)" gameA]
  note b = camera_target_bounds [of "(1024, 768)" gameFollow]
  note c = camera_target_bounds [of "(1024, 768)" gameSmall]
  note d = camera_target_bounds [of "(640, 480)" gameNoLocal]
  from a have ra: "cameraTarget (1024, 768) gameA = (20, 0)"
    by (simp add: world_size example_viewports prod_eq_iff)
  from b have rb: "cameraTarget (1024, 768) gameFollow = (- 100, - 150)"
    by (simp add: world_size example_viewports example_localSprites example_positions prod_eq_iff)
  from c have rc: "cameraTarget (1024, 768) gameSmall = (- 360, - 300)"
    by (simp add: world_size example_viewports example_localSprites example_positions prod_eq_iff)
  from d have rd: "cameraTarget (640, 480) gameNoLocal = (0, 0)"
    by (simp add: world_size example_viewports example_localSprites prod_eq_iff)
  from ra rb rc rd show ?thesis
    by (simp add: world_size example_viewports)
qed

subsection \<open>C8: the screen shake is raised to a maximum, not added\<close>

text \<open>
  C8.  A trigger computes a new intensity from the grid distance between the explosion
  and the local player: it decreases with the distance and is \<open>0\<close> at or beyond 6
  cells.  The current shake intensity, which is never negative in a run of the game
  (\<open>shake_nonneg_run\<close>), becomes the maximum of the current and the new intensity,
  not their sum; without a local player sprite the trigger changes nothing.
\<close>

theorem shake_trigger_is_max:
  "(localSprite g = Some lp \<and> 0 \<le> shakeIntensity g \<longrightarrow>
      shakeIntensity (triggerExplosionShake ex ey g)
        = max (shakeIntensity g)
            (impulseIntensity (sqrt ((p_gridX (ps_data lp) - ex) * (p_gridX (ps_data lp) - ex)
                                   + (p_gridY (ps_data lp) - ey) * (p_gridY (ps_data lp) - ey)))))
   \<and> (localSprite g = None \<longrightarrow> shakeIntensity (triggerExplosionShake ex ey g) = shakeIntensity g)
   \<and> (d1 \<le> d2 \<longrightarrow> impulseIntensity d2 \<le> impulseIntensity d1)
   \<and> (d1 < d2 \<and> d1 < 6 \<longrightarrow> impulseIntensity d2 < impulseIntensity d1)
   \<and> (6 \<le> d1 \<longrightarrow> impulseIntensity d1 = 0)
   \<and> (0 \<le> d1 \<longrightarrow> impulseIntensity d1 \<le> 12)"
proof (intro conjI impI)
  assume a: "localSprite g = Some lp \<and> 0 \<le> shakeIntensity g"
  then have t: "truthy (mySocketId g)" "map_of (playerSprites g) (the (mySocketId g)) = Some lp"
    by (auto simp: localSprite_def split: if_splits)
  with a show "shakeIntensity (triggerExplosionShake ex ey g)
        = max (shakeIntensity g)
            (impulseIntensity (sqrt ((p_gridX (ps_data lp) - ex) * (p_gridX (ps_data lp) - ex)
                                   + (p_gridY (ps_data lp) - ey) * (p_gridY (ps_data lp) - ey))))"
    by (simp add: triggerExplosionShake_def Let_def impulseIntensity_def)
next
  assume "localSprite g = None"
  then show "shakeIntensity (triggerExplosionShake ex ey g) = shakeIntensity g"
    by (auto simp: localSprite_def triggerExplosionShake_def split: if_splits)
next
  assume "d1 \<le> d2"
  then show "impulseIntensity d2 \<le> impulseIntensity d1" by (rule impulseIntensity_antimono)
next
  assume "d1 < d2 \<and> d1 < 6"
  then show "impulseIntensity d2 < impulseIntensity d1"
    by (auto simp: impulseIntensity_def field_simps)
next
  assume "6 \<le> d1"
  then show "impulseIntensity d1 = 0" by (simp add: impulseIntensity_def)
next
  assume "0 \<le> d1"
  then show "impulseIntensity d1 \<le> 12" by (auto simp: impulseIntensity_def field_simps)
qed

theorem shake_trigger_is_max_witness:
  "localSprite gameA = Some (newPlayerSprite alice) \<and> 0 \<le> shakeIntensity gameA
   \<and> shakeIntensity (triggerExplosionShake (9 / 2) 1 gameA) = 5
   \<and> shakeIntensity (triggerExplosionShake 3 1 gameA) = 8
   \<and> shakeIntensity (triggerExplosionShake 3 1 (triggerExplosionShake (9 / 2) 1 gameA)) = 8
   \<and> shakeIntensity (triggerExplosionShake (9 / 2) 1 (triggerExplosionShake 3 1 gameA)) = 8
   \<and> shakeIntensity (triggerExplosionShake 7 1 (triggerExplosionShake 3 1 gameA)) = 8
   \<and> localSprite gameNoLocal = None
   \<and> shakeIntensity (triggerExplosionShake 3 1 gameNoLocal) = shakeIntensity gameNoLocal
   \<and> (2::real) < 7 / 2 \<and> impulseIntensity (7 / 2) < impulseIntensity 2
   \<and> impulseIntensity 6 = 0 \<and> impulseIntensity 0 \<le> 12"
proof -
  let ?g5 = "triggerExplosionShake (9 / 2) 1 gameA"
  let ?g8 = "triggerExplosionShake 3 1 gameA"
  have i: "impulseIntensity (7 / 2) = 5" "impulseIntensity 2 = 8" "impulseIntensity 6 = 0"
    by (simp_all add: impulseIntensity_def)
  note d = sqrt_examples
  have a5: "shakeIntensity ?g5 = 5"
    using shake_trigger_is_max [where g = gameA and lp = "newPlayerSprite alice"
        and ex = "9 / 2" and ey = 1]
    by (simp add: localSprite_gameA d i)
  have a8: "shakeIntensity ?g8 = 8"
    using shake_trigger_is_max [where g = gameA and lp = "newPlayerSprite alice"
        and ex = 3 and ey = 1]
    by (simp add: localSprite_gameA d i)
  have b: "shakeIntensity (triggerExplosionShake 3 1 ?g5) = 8"
    using shake_trigger_is_max [where g = ?g5 and lp = "newPlayerSprite alice"
        and ex = 3 and ey = 1]
    by (simp add: localSprite_shake localSprite_gameA a5 d i)
  have c: "shakeIntensity (triggerExplosionShake (9 / 2) 1 ?g8) = 8"
    using shake_trigger_is_max [where g = ?g8 and lp = "newPlayerSprite alice"
        and ex = "9 / 2" and ey = 1]
    by (simp add: localSprite_shake localSprite_gameA a8 d i)
  have f: "shakeIntensity (triggerExplosionShake 7 1 ?g8) = 8"
    using shake_trigger_is_max [where g = ?g8 and lp = "newPlayerSprite alice"
        and ex = 7 and ey = 1]
    by (simp add: localSprite_shake localSprite_gameA a8 d i)
  have n: "localSprite gameNoLocal = None"
    by (simp add: localSprite_def truthy_def gameNoLocal_def)
  have e: "shakeIntensity (triggerExplosionShake 3 1 gameNoLocal) = shakeIntensity gameNoLocal"
    using shake_trigger_is_max [where g = gameNoLocal and ex = 3 and ey = 1] n by simp
  have m: "impulseIntensity (7 / 2) < impulseIntensity 2" "impulseIntensity 0 \<le> 12"
    using shake_trigger_is_max [where ?d1.0 = 2 and ?d2.0 = "7 / 2"]
      shake_trigger_is_max [where ?d1.0 = 0]
    by simp_all
  from a5 a8 b c f n e m i show ?thesis by (simp add: localSprite_gameA)
qed

subsection \<open>C6: the wrap bounce completes\<close>

text \<open>
  C6.  Once the wrap bounce has been triggered (its phase is strictly between \<open>0\<close>
  and \<open>2\<close>): the frame whose increment of \<open>0.08\<close> carries the phase to \<open>2\<close> or
  beyond leaves the sprite idle, that is with scale exactly \<open>(1, 1)\<close>, phase \<open>0\<close> and
  no axis tag; after any number of frames the sprite is either still inside the bounce
  or idle in that sense; it is idle after at most 25 frames; and a snapshot update that
  arrives during the bounce changes neither the phase, nor the axis tag, nor the scale.
  The phase is a real number here; in the source it is a double, and from the start
  value \<open>0.01\<close> the sums \<open>1.93\<close> and \<open>2.01\<close> on either side of the threshold are
  far from it, so the rounding of the additions does not change the frame count.
\<close>

theorem wrap_bounce_completion:
  assumes "0 < bs_wrapBouncePhase sp" and "bs_wrapBouncePhase sp < 2"
  shows "(2 \<le> bs_wrapBouncePhase sp + 0.08 \<longrightarrow> wrapIdle (animateBomb sp))
       \<and> ((0 < bs_wrapBouncePhase ((animateBomb ^^ n) sp)
             \<and> bs_wrapBouncePhase ((animateBomb ^^ n) sp) < 2)
           \<or> wrapIdle ((animateBomb ^^ n) sp))
       \<and> (\<exists>k. 0 < k \<and> k \<le> 25 \<and> wrapIdle ((animateBomb ^^ k) sp))
       \<and> bs_wrapBouncePhase (updateBombSprite d sp) = bs_wrapBouncePhase sp
       \<and> bs_wrapBounceDir (updateBombSprite d sp) = bs_wrapBounceDir sp
       \<and> bs_scaleX (updateBombSprite d sp) = bs_scaleX sp
       \<and> bs_scaleY (updateBombSprite d sp) = bs_scaleY sp"
proof -
  from assms have nz: "bs_wrapBouncePhase sp \<noteq> 0" by simp
  from assms animateBomb_completes [OF assms]
    animateBomb_invariant_iter [of sp n] wrap_bounce_terminates [OF assms]
    updateBombSprite_mid_bounce [OF nz, of d]
  show ?thesis by blast
qed

theorem wrap_bounce_completion_witness:
  "0 < bs_wrapBouncePhase bombTriggered \<and> bs_wrapBouncePhase bombTriggered < 2
   \<and> bs_wrapBouncePhase ((animateBomb ^^ 24) bombTriggered) = 1.93
   \<and> 2 \<le> bs_wrapBouncePhase ((animateBomb ^^ 24) bombTriggered) + 0.08
   \<and> wrapIdle ((animateBomb ^^ 25) bombTriggered)
   \<and> (\<exists>k. 0 < k \<and> k \<le> 25 \<and> wrapIdle ((animateBomb ^^ k) bombTriggered))
   \<and> 0 < bs_wrapBouncePhase bombLate \<and> bs_wrapBouncePhase bombLate < 2
   \<and> 2 \<le> bs_wrapBouncePhase bombLate + 0.08
   \<and> \<not> wrapIdle bombLate \<and> wrapIdle (animateBomb bombLate)"
proof -
  have p: "0 < bs_wrapBouncePhase bombTriggered" "bs_wrapBouncePhase bombTriggered < 2"
    by (simp_all add: bombTriggered_phase)
  have "bs_wrapBouncePhase bombTriggered + 0.08 * real 24 < 2"
    by (simp add: bombTriggered_phase)
  from phase_progress [OF p(1) this]
  have q: "bs_wrapBouncePhase ((animateBomb ^^ 24) bombTriggered) = 1.93"
    by (simp add: bombTriggered_phase)
  then have q2: "0 < bs_wrapBouncePhase ((animateBomb ^^ 24) bombTriggered)"
    "bs_wrapBouncePhase ((animateBomb ^^ 24) bombTriggered) < 2"
    "2 \<le> bs_wrapBouncePhase ((animateBomb ^^ 24) bombTriggered) + 0.08"
    by simp_all
  have s: "(animateBomb ^^ 25) bombTriggered = animateBomb ((animateBomb ^^ 24) bombTriggered)"
    by (simp add: eval_nat_numeral)
  from wrap_bounce_completion [OF q2(1,2)] q2(3)
  have r1: "wrapIdle ((animateBomb ^^ 25) bombTriggered)" by (simp add: s)
  from wrap_bounce_completion [OF p]
  have r2: "\<exists>k. 0 < k \<and> k \<le> 25 \<and> wrapIdle ((animateBomb ^^ k) bombTriggered)" by blast
  have l: "0 < bs_wrapBouncePhase bombLate" "bs_wrapBouncePhase bombLate < 2"
    "2 \<le> bs_wrapBouncePhase bombLate + 0.08" "\<not> wrapIdle bombLate"
    by (simp_all add: bombLate_def wrapIdle_def)
  from wrap_bounce_completion [OF l(1,2)] l(3)
  have r3: "wrapIdle (animateBomb bombLate)" by blast
  from p q q2 r1 r2 l r3 show ?thesis by blast
qed

subsection \<open>C4: the movement throttle and repeated key-down events\<close>

text \<open>
  C4 says that for one movement key held during the playing phase, with the host
  delivering repeated key-down events for it, one movement intent is dispatched on the
  first key-down and afterwards at most one per window of 120 ms.  The frame tick
  compares the clock with \<^verbatim>\<open>lastMoveTime\<close> before it dispatches; \<^verbatim>\<open>handleKeyDown\<close>
  does not, and its test for the first key press, \<^verbatim>\<open>keysHeld.size === 1\<close>, also holds
  for every repeated key-down of the one held key.  In a playing game with no key held,
  the key-down of the arrow key at time \<open>1000\<close> and its repeats at \<open>1500\<close>,
  \<open>1533\<close> and \<open>1566\<close> dispatch four movement intents, the last three within 66 ms.
\<close>

theorem held_key_repeat_events_bypass_throttle:
  "lobbyStateIs PHASE_PLAYING gamePlaying \<and> keysHeld gamePlaying = [] \<and> sent gamePlaying = []
   \<and> heldArrowUp = [KeyDown 1000 arrowUp, KeyDown 1500 arrowUp, KeyDown 1533 arrowUp,
                     KeyDown 1566 arrowUp]
   \<and> keysHeld (run heldArrowUp gamePlaying) = [''ArrowUp'']
   \<and> sent (run heldArrowUp gamePlaying)
        = [Move DIRECTION_UP, Move DIRECTION_UP, Move DIRECTION_UP, Move DIRECTION_UP]
   \<and> lastMoveTime (run heldArrowUp gamePlaying) = 1566
   \<and> 1566 - 1500 < moveRepeatDelay"
proof -
  let ?up = "Move DIRECTION_UP"
  define g1 where "g1 = handleKeyDown 1000 arrowUp gamePlaying"
  define g2 where "g2 = handleKeyDown 1500 arrowUp g1"
  define g3 where "g3 = handleKeyDown 1533 arrowUp g2"
  define g4 where "g4 = handleKeyDown 1566 arrowUp g3"
  have a0: "set_add ''ArrowUp'' (keysHeld gamePlaying) = [''ArrowUp'']"
    by (simp add: gamePlaying_facts set_add_def)
  have s1: "g1 = gamePlaying\<lparr>keysHeld := [''ArrowUp''], sent := sent gamePlaying @ [?up],
                             lastMoveTime := 1000\<rparr>"
    unfolding g1_def
    by (rule handleKeyDown_held_arrow [OF gamePlaying_facts(1) gamePlaying_facts(2) a0])
  have p1: "lobbyStateIs PHASE_PLAYING g1" "callbacks g1"
    "set_add ''ArrowUp'' (keysHeld g1) = [''ArrowUp'']" "sent g1 = [?up]"
    using gamePlaying_facts by (simp_all add: s1 lobbyStateIs_def set_add_def)
  have s2: "g2 = g1\<lparr>keysHeld := [''ArrowUp''], sent := sent g1 @ [?up], lastMoveTime := 1500\<rparr>"
    unfolding g2_def by (rule handleKeyDown_held_arrow [OF p1(1) p1(2) p1(3)])
  have p2: "lobbyStateIs PHASE_PLAYING g2" "callbacks g2"
    "set_add ''ArrowUp'' (keysHeld g2) = [''ArrowUp'']" "sent g2 = [?up, ?up]"
    using p1(1,2,4) by (simp_all add: s2 lobbyStateIs_def set_add_def)
  have s3: "g3 = g2\<lparr>keysHeld := [''ArrowUp''], sent := sent g2 @ [?up], lastMoveTime := 1533\<rparr>"
    unfolding g3_def by (rule handleKeyDown_held_arrow [OF p2(1) p2(2) p2(3)])
  have p3: "lobbyStateIs PHASE_PLAYING g3" "callbacks g3"
    "set_add ''ArrowUp'' (keysHeld g3) = [''ArrowUp'']" "sent g3 = [?up, ?up, ?up]"
    using p2(1,2,4) by (simp_all add: s3 lobbyStateIs_def set_add_def)
  have s4: "g4 = g3\<lparr>keysHeld := [''ArrowUp''], sent := sent g3 @ [?up], lastMoveTime := 1566\<rparr>"
    unfolding g4_def by (rule handleKeyDown_held_arrow [OF p3(1) p3(2) p3(3)])
  have r: "run heldArrowUp gamePlaying = g4"
    unfolding run_def heldArrowUp_def g4_def g3_def g2_def g1_def by simp
  have res: "keysHeld (run heldArrowUp gamePlaying) = [''ArrowUp'']"
    "sent (run heldArrowUp gamePlaying) = [?up, ?up, ?up, ?up]"
    "lastMoveTime (run heldArrowUp gamePlaying) = 1566"
    unfolding r by (simp_all add: s4 p3(4))
  have d: "1566 - 1500 < moveRepeatDelay" by (simp add: moveRepeatDelay_def)
  from res d gamePlaying_facts(1,3,4) heldArrowUp_def show ?thesis by blast
qed

end
